theory Spec2Isabelle
  imports Complex_Main "HOL-Library.AList" "HOL-Library.Sublist"
begin

section \<open>Python values\<close>

text \<open>
  A Python \<^verbatim>\<open>str\<close> is a sequence of Unicode code points, and the operations the
  program applies to text (\<^verbatim>\<open>str.strip\<close>, the classes \<^verbatim>\<open>\s\<close> and \<^verbatim>\<open>\d\<close> of
  \<^verbatim>\<open>re\<close>, \<^verbatim>\<open>int\<close>) classify code points, not bytes. The model therefore
  takes a string to be the list of its code points; \<open>str\<close> reads an ASCII literal.
\<close>

type_synonym pystr = "nat list"

definition str :: "string \<Rightarrow> pystr" where
  "str s = map of_char s"

text \<open>
  Whitespace as \<^verbatim>\<open>str.isspace\<close>, \<^verbatim>\<open>str.strip()\<close> and \<^verbatim>\<open>\s\<close> see it (CPython's
  \<^verbatim>\<open>Py_UNICODE_ISSPACE\<close>).
\<close>

definition isspace :: "nat \<Rightarrow> bool" where
  "isspace c \<longleftrightarrow>
     (9 \<le> c \<and> c \<le> 13) \<or> (28 \<le> c \<and> c \<le> 32) \<or> c = 133 \<or> c = 160 \<or> c = 5760 \<or>
     (8192 \<le> c \<and> c \<le> 8202) \<or> c = 8232 \<or> c = 8233 \<or> c = 8239 \<or> c = 8287 \<or> c = 12288"

text \<open>
  Decimal digits as \<^verbatim>\<open>\d\<close> sees them: the characters of Unicode category Nd
  (Unicode 14). They come in runs of ten, the digits 0 to 9 of one script; \<open>nd_zeros\<close>
  lists the code point of the zero of each run.
\<close>

definition nd_zeros :: "nat list" where
  "nd_zeros =
    [48, 1632, 1776, 1984, 2406, 2534, 2662, 2790, 2918, 3046, 3174, 3302, 3430, 3558,
     3664, 3792, 3872, 4160, 4240, 6112, 6160, 6470, 6608, 6784, 6800, 6992, 7088, 7232,
     7248, 42528, 43216, 43264, 43472, 43504, 43600, 44016, 65296, 66720, 68912, 69734,
     69872, 69942, 70096, 70384, 70736, 70864, 71248, 71360, 71472, 71904, 72016, 72784,
     73040, 73120, 92768, 92864, 93008, 120782, 120792, 120802, 120812, 120822, 123200,
     123632, 125264, 130032]"

definition isdecimal :: "nat \<Rightarrow> bool" where
  "isdecimal c \<longleftrightarrow> list_ex (\<lambda>z. z \<le> c \<and> c \<le> z + 9) nd_zeros"

text \<open>The value \<^verbatim>\<open>int\<close> gives a decimal digit: its offset in its run.\<close>

definition digit_value :: "nat \<Rightarrow> nat" where
  "digit_value c = (case filter (\<lambda>z. z \<le> c \<and> c \<le> z + 9) nd_zeros of [] \<Rightarrow> 0 | z # _ \<Rightarrow> c - z)"

fun int_of_digits :: "nat \<Rightarrow> pystr \<Rightarrow> nat" where
  "int_of_digits acc [] = acc"
| "int_of_digits acc (c # cs) = int_of_digits (10 * acc + digit_value c) cs"

text \<open>\<^verbatim>\<open>s.strip()\<close>: whitespace removed at both ends.\<close>

definition strip :: "pystr \<Rightarrow> pystr" where
  "strip s = rev (dropWhile isspace (rev (dropWhile isspace s)))"

text \<open>\<^verbatim>\<open>sep.join(xs)\<close>.\<close>

fun join :: "pystr \<Rightarrow> pystr list \<Rightarrow> pystr" where
  "join sep [] = []"
| "join sep [x] = x"
| "join sep (x # y # ys) = x @ sep @ join sep (y # ys)"

text \<open>The exceptions the modelled code can raise.\<close>

datatype error =
    IndexError
  | ValueError
  | AssertionError
  | EOFError
  | OpenAIError
  | SystemExit int

text \<open>An exception raised in a step ends the steps after it.\<close>

definition ebind :: "error + 'a \<Rightarrow> ('a \<Rightarrow> error + 'b) \<Rightarrow> error + 'b" where
  "ebind m f = (case m of Inl e \<Rightarrow> Inl e | Inr x \<Rightarrow> f x)"

text \<open>
  The subscript \<^verbatim>\<open>xs[i]\<close> of a list of length \<open>n\<close>: the positions are
  \<open>0\<close> to \<open>n - 1\<close>, the index \<open>-k\<close> stands for \<open>n - k\<close>, and any other
  index raises.
\<close>

definition getitem :: "'a list \<Rightarrow> int \<Rightarrow> error + 'a" where
  "getitem xs i =
     (if 0 \<le> i \<and> i < int (length xs) then Inr (xs ! nat i)
      else if - int (length xs) \<le> i \<and> i < 0 then Inr (xs ! nat (int (length xs) + i))
      else Inl IndexError)"

section \<open>Dates\<close>

text \<open>
  \<^verbatim>\<open>datetime.datetime.strptime(s, "%Y-%m-%d")\<close>. The standard library turns the
  format into the regular expression
  \<^verbatim>\<open>(?P<Y>\d\d\d\d)-(?P<m>1[0-2]|0[1-9]|[1-9])-(?P<d>3[0-1]|[1-2]\d|0[1-9]|[1-9]| [1-9])\<close>,
  matches it at the start of the text, raises \<^verbatim>\<open>ValueError\<close> when it does not match or
  when text remains after the match, and builds the date from the three numbers, which
  raises \<^verbatim>\<open>ValueError\<close> again when there is no such day. In each group the
  first alternative that matches decides: a later one never matches where an earlier one
  did and the rest of the expression failed.
\<close>

definition in_range :: "char \<Rightarrow> char \<Rightarrow> nat \<Rightarrow> bool" where
  "in_range lo hi c \<longleftrightarrow> of_char lo \<le> c \<and> c \<le> of_char hi"

fun match_Y :: "pystr \<Rightarrow> (nat \<times> pystr) option" where
  "match_Y (a # b # c # d # rest) =
     (if isdecimal a \<and> isdecimal b \<and> isdecimal c \<and> isdecimal d
      then Some (int_of_digits 0 [a, b, c, d], rest) else None)"
| "match_Y _ = None"

fun match_m :: "pystr \<Rightarrow> (nat \<times> pystr) option" where
  "match_m (a # b # rest) =
     (if a = of_char CHR ''1'' \<and> in_range CHR ''0'' CHR ''2'' b then Some (int_of_digits 0 [a, b], rest)
      else if a = of_char CHR ''0'' \<and> in_range CHR ''1'' CHR ''9'' b then Some (int_of_digits 0 [a, b], rest)
      else if in_range CHR ''1'' CHR ''9'' a then Some (int_of_digits 0 [a], b # rest)
      else None)"
| "match_m [a] = (if in_range CHR ''1'' CHR ''9'' a then Some (int_of_digits 0 [a], []) else None)"
| "match_m [] = None"

fun match_d :: "pystr \<Rightarrow> (nat \<times> pystr) option" where
  "match_d (a # b # rest) =
     (if a = of_char CHR ''3'' \<and> in_range CHR ''0'' CHR ''1'' b then Some (int_of_digits 0 [a, b], rest)
      else if in_range CHR ''1'' CHR ''2'' a \<and> isdecimal b then Some (int_of_digits 0 [a, b], rest)
      else if a = of_char CHR ''0'' \<and> in_range CHR ''1'' CHR ''9'' b then Some (int_of_digits 0 [a, b], rest)
      else if in_range CHR ''1'' CHR ''9'' a then Some (int_of_digits 0 [a], b # rest)
      else if a = of_char CHR '' '' \<and> in_range CHR ''1'' CHR ''9'' b then Some (int_of_digits 0 [b], rest)
      else None)"
| "match_d [a] = (if in_range CHR ''1'' CHR ''9'' a then Some (int_of_digits 0 [a], []) else None)"
| "match_d [] = None"

fun match_dash :: "pystr \<Rightarrow> pystr option" where
  "match_dash (c # rest) = (if c = of_char CHR ''-'' then Some rest else None)"
| "match_dash [] = None"

text \<open>The calendar of \<^verbatim>\<open>datetime\<close>: the proleptic Gregorian ordinal of a day.\<close>

definition is_leap :: "nat \<Rightarrow> bool" where
  "is_leap year \<longleftrightarrow> year mod 4 = 0 \<and> (year mod 100 \<noteq> 0 \<or> year mod 400 = 0)"

definition DAYS_IN_MONTH :: "nat list" where
  "DAYS_IN_MONTH = [0, 31, 28, 31, 30, 31, 30, 31, 31, 30, 31, 30, 31]"

definition days_in_month :: "nat \<Rightarrow> nat \<Rightarrow> nat" where
  "days_in_month year month = (if month = 2 \<and> is_leap year then 29 else DAYS_IN_MONTH ! month)"

definition days_before_year :: "nat \<Rightarrow> int" where
  "days_before_year year =
     (let y = int year - 1 in y * 365 + y div 4 - y div 100 + y div 400)"

definition days_before_month :: "nat \<Rightarrow> nat \<Rightarrow> int" where
  "days_before_month year month =
     int (sum_list (take month DAYS_IN_MONTH)) + (if month > 2 \<and> is_leap year then 1 else 0)"

definition ymd2ord :: "nat \<times> nat \<times> nat \<Rightarrow> int" where
  "ymd2ord date = (case date of (year, month, day) \<Rightarrow>
     days_before_year year + days_before_month year month + int day)"

definition strptime_match :: "pystr \<Rightarrow> (nat \<times> nat \<times> nat \<times> pystr) option" where
  "strptime_match s =
     Option.bind (match_Y s) (\<lambda>(year, s1).
     Option.bind (match_dash s1) (\<lambda>s2.
     Option.bind (match_m s2) (\<lambda>(month, s3).
     Option.bind (match_dash s3) (\<lambda>s4.
     Option.bind (match_d s4) (\<lambda>(day, s5). Some (year, month, day, s5))))))"

definition strptime :: "pystr \<Rightarrow> error + (nat \<times> nat \<times> nat)" where
  "strptime s =
     (case strptime_match s of
        None \<Rightarrow> Inl ValueError
      | Some (year, month, day, unconverted) \<Rightarrow>
          if unconverted \<noteq> [] then Inl ValueError
          else if 1 \<le> year \<and> 1 \<le> month \<and> month \<le> 12 \<and> 1 \<le> day \<and> day \<le> days_in_month year month
          then Inr (year, month, day)
          else Inl ValueError)"

text \<open>
  Lines 353 to 355 of \<^verbatim>\<open>present_itinerary\<close>: both dates parsed, and the
  \<^verbatim>\<open>days\<close> of their difference. Both are midnights, so the difference is a whole
  number of days.
\<close>

definition trip_days :: "pystr list \<Rightarrow> error + int" where
  "trip_days travel_dates =
     ebind (getitem travel_dates 0) (\<lambda>s0.
     ebind (strptime s0) (\<lambda>start_date.
     ebind (getitem travel_dates 1) (\<lambda>s1.
     ebind (strptime s1) (\<lambda>end_date.
     Inr (ymd2ord end_date - ymd2ord start_date)))))"

section \<open>Splitting the itinerary text\<close>

text \<open>
  The pattern of line 333 is \<^verbatim>\<open>(Transportation:|Accommodation:|Day\s+\d+:)\<close>.
  \<open>match_label s\<close> is the length of its match at the start of \<open>s\<close>, if there is one.
  The alternatives are tried in the order written. In the third one \<^verbatim>\<open>\s+\<close> and
  \<^verbatim>\<open>\d+\<close> are greedy, and giving characters back never helps: the character after
  a shorter run of whitespace is whitespace and not a digit, the one after a shorter run of
  digits is a digit and not the colon.
\<close>

definition match_day :: "pystr \<Rightarrow> nat option" where
  "match_day s =
     (if prefix (str ''Day'') s then
        let r = drop 3 s;
            spaces = takeWhile isspace r;
            r1 = dropWhile isspace r;
            digits = takeWhile isdecimal r1;
            r2 = dropWhile isdecimal r1
        in if spaces \<noteq> [] \<and> digits \<noteq> [] \<and> prefix (str '':'') r2
           then Some (3 + length spaces + length digits + 1) else None
      else None)"

definition match_label :: "pystr \<Rightarrow> nat option" where
  "match_label s =
     (if prefix (str ''Transportation:'') s then Some (length (str ''Transportation:''))
      else if prefix (str ''Accommodation:'') s then Some (length (str ''Accommodation:''))
      else match_day s)"

text \<open>
  The first match at or after the start of the text, as the scan of \<^verbatim>\<open>re.split\<close>
  finds it: the text before the match, the match, the text after it.
\<close>

fun search_label :: "pystr \<Rightarrow> (pystr \<times> pystr \<times> pystr) option" where
  "search_label [] = None"
| "search_label (c # cs) =
     (case match_label (c # cs) of
        Some n \<Rightarrow> Some ([], take n (c # cs), drop n (c # cs))
      | None \<Rightarrow> map_option (\<lambda>(pre, lbl, rest). (c # pre, lbl, rest)) (search_label cs))"

lemma search_label_shorter:
  "search_label s = Some (pre, lbl, rest) \<Longrightarrow> length rest < length s"
proof (induction s arbitrary: pre)
  case Nil
  then show ?case by simp
next
  case (Cons c cs)
  show ?case
  proof (cases "match_label (c # cs)")
    case None
    with Cons.prems obtain pre' where "search_label cs = Some (pre', lbl, rest)"
      by auto
    from Cons.IH [OF this] show ?thesis by simp
  next
    case (Some n)
    then have "0 < n"
      by (auto simp: match_label_def match_day_def Let_def str_def split: if_splits)
    with Some Cons.prems show ?thesis by auto
  qed
qed

text \<open>
  \<^verbatim>\<open>re.split\<close> with one capturing group: the pieces of the text between the
  matches, with the matched labels between them. A match is never empty, so the pieces and
  the labels alternate and the text after the last match ends the list.
\<close>

function re_split :: "pystr \<Rightarrow> pystr list" where
  "re_split s =
     (case search_label s of
        None \<Rightarrow> [s]
      | Some (pre, lbl, rest) \<Rightarrow> pre # lbl # re_split rest)"
  by pat_completeness auto
termination
  by (relation "measure length") (auto dest: search_label_shorter)

declare re_split.simps [simp del]

text \<open>
  The loop of lines 336 to 350. The itinerary is a dictionary, which keeps its keys in the
  order of their first insertion: an association list, where \<open>AList.update\<close> replaces
  the value of a key in place and puts a new key last. \<^verbatim>\<open>re.match\<close> looks for the
  day pattern at the start of the section only.
\<close>

type_synonym itinerary = "(pystr \<times> pystr list) list"

definition parse_step :: "pystr \<Rightarrow> itinerary \<times> pystr option \<Rightarrow> itinerary \<times> pystr option" where
  "parse_step section st =
     (case st of (itinerary, current_section) \<Rightarrow>
        let section = strip section in
        if section = [] then (itinerary, current_section)
        else if section = str ''Transportation:'' \<or> section = str ''Accommodation:''
          then (AList.update section [] itinerary, Some section)
        else if match_day section \<noteq> None
          then (AList.update section [] itinerary, Some section)
        else (case current_section of
                None \<Rightarrow> (itinerary, current_section)
              | Some cur \<Rightarrow>
                  if cur = [] then (itinerary, current_section)
                  else (AList.map_entry cur (\<lambda>items. items @ [section]) itinerary, current_section)))"

definition parse_sections :: "pystr \<Rightarrow> itinerary" where
  "parse_sections itinerary_text = fst (fold parse_step (re_split itinerary_text) ([], None))"

section \<open>The knowledge base and the nearest-neighbour index\<close>

text \<open>
  A record body maps attribute names to values; the values of the knowledge base are texts
  (description, address, website) and lists of texts (tips, activities). Dictionaries keep
  the order of insertion, so a body is an association list, and so are a category and the
  knowledge base: \<^verbatim>\<open>d.items()\<close> is the list itself.
\<close>

datatype pyval = PStr pystr | PList "pystr list"

type_synonym krecord = "(pystr \<times> pyval) list"

type_synonym knowledge = "(pystr \<times> (pystr \<times> krecord) list) list"

text \<open>
  An embedding is a vector of numbers. The index is \<^verbatim>\<open>faiss.IndexFlatL2\<close>: it
  stores the vectors it is given, in the order given, and searches all of them. The
  arithmetic of the library is single-precision floating point; the model computes the
  squared Euclidean distance exactly.
\<close>

type_synonym vec = "real list"

record index_flat =
  idx_d :: nat
  idx_xb :: "vec list"

definition IndexFlatL2 :: "nat \<Rightarrow> index_flat" where
  "IndexFlatL2 d = \<lparr>idx_d = d, idx_xb = []\<rparr>"

text \<open>
  \<^verbatim>\<open>index.add(np.array(xs))\<close>. The library reads the shape of the array as a number
  of rows and a number of columns, which raises \<^verbatim>\<open>ValueError\<close> for the array of an
  empty list and for rows of different lengths, where there is no such shape; then it
  asserts that the number of columns is the dimension of the index. When it raises, the
  index is as it was.
\<close>

definition index_add :: "index_flat \<Rightarrow> vec list \<Rightarrow> error + index_flat" where
  "index_add ix xs =
     (if xs = [] \<or> (\<exists>x\<in>set xs. length x \<noteq> length (hd xs)) then Inl ValueError
      else if length (hd xs) \<noteq> idx_d ix then Inl AssertionError
      else Inr (ix\<lparr>idx_xb := idx_xb ix @ xs\<rparr>))"

definition fvec_L2sqr :: "vec \<Rightarrow> vec \<Rightarrow> real" where
  "fvec_L2sqr x y = sum_list (map (\<lambda>(a, b). (a - b)\<^sup>2) (zip x y))"

text \<open>
  The labels (positions in the index) of the \<open>k\<close> vectors nearest to a query, nearest
  first. The row of labels always has \<open>k\<close> entries; where the index holds fewer than
  \<open>k\<close> vectors the library fills the row with the label \<open>-1\<close>. Vectors at equal
  distance are listed by position.
\<close>

definition nearest_labels :: "index_flat \<Rightarrow> vec \<Rightarrow> nat \<Rightarrow> int list" where
  "nearest_labels ix q k =
     (let distances = map (fvec_L2sqr q) (idx_xb ix);
          nearest = take k (map snd (sort_key fst (zip distances [0..<length distances])))
      in map int nearest @ replicate (k - length nearest) (- 1))"

text \<open>
  \<^verbatim>\<open>index.search(np.array([q]), k)\<close> for the one query \<open>q\<close>: the library asserts
  that the query has the dimension of the index, and gives the row of labels.
\<close>

definition index_search :: "index_flat \<Rightarrow> vec \<Rightarrow> nat \<Rightarrow> error + int list" where
  "index_search ix q k =
     (if length q \<noteq> idx_d ix then Inl AssertionError else Inr (nearest_labels ix q k))"

section \<open>The agent\<close>

record agent =
  name :: pystr
  cache_size :: int
  embedding_dim :: nat
  index :: index_flat
  knowledge_embeddings :: "vec list"
  knowledge_data :: "krecord list"
  embedding_cache :: "pystr \<rightharpoonup> vec"

text \<open>
  What the program does to the world outside the agent: the texts it sends to the
  embedding endpoint, the pairs of system and user message it sends to the generation
  endpoint, the characters it writes to the console, and the lines still to be read from it.
\<close>

record world =
  embed_log :: "pystr list"
  chat_log :: "(pystr \<times> pystr) list"
  stdout :: pystr
  stdin :: "pystr list"

text \<open>
  A method of the agent takes the agent and the world and returns them changed, with its
  result or the exception it raised: what was changed before an exception stays changed.
\<close>

type_synonym 'a action = "agent \<times> world \<Rightarrow> (error + 'a) \<times> agent \<times> world"

definition sbind :: "'a action \<Rightarrow> ('a \<Rightarrow> 'b action) \<Rightarrow> 'b action" where
  "sbind m f st = (case m st of (Inl e, st') \<Rightarrow> (Inl e, st') | (Inr x, st') \<Rightarrow> f x st')"

definition lift :: "error + 'a \<Rightarrow> 'a action" where
  "lift r st = (r, st)"

definition write_out :: "pystr \<Rightarrow> world \<Rightarrow> world" where
  "write_out s w = w\<lparr>stdout := stdout w @ s\<rparr>"

definition print :: "pystr \<Rightarrow> unit action" where
  "print s st = (case st of (a, w) \<Rightarrow> (Inr (), a, write_out (s @ [10]) w))"

text \<open>\<^verbatim>\<open>input(prompt)\<close>: the prompt is written, a line is read; at the end of the input it raises.\<close>

definition input :: "pystr \<Rightarrow> pystr action" where
  "input prompt st =
     (case st of (a, w) \<Rightarrow>
        (case stdin w of
           [] \<Rightarrow> (Inl EOFError, a, write_out prompt w)
         | line # rest \<Rightarrow> (Inr line, a, (write_out prompt w)\<lparr>stdin := rest\<rparr>)))"

definition Agent :: "pystr \<Rightarrow> int \<Rightarrow> nat \<Rightarrow> agent" where
  "Agent nm csize d =
     \<lparr>name = nm, cache_size = csize, embedding_dim = d, index = IndexFlatL2 d,
      knowledge_embeddings = [], knowledge_data = [], embedding_cache = Map.empty\<rparr>"

text \<open>
  \<^verbatim>\<open>get_embedding\<close>: newlines become spaces, and the text goes to the embedding
  endpoint, which is the parameter \<open>emb\<close>: the endpoint answers every call, and with
  the same vector for the same text.
\<close>

definition get_embedding :: "(pystr \<Rightarrow> vec) \<Rightarrow> pystr \<Rightarrow> world \<Rightarrow> vec \<times> world" where
  "get_embedding emb text w =
     (let text = map (\<lambda>c. if c = 10 then 32 else c) text
      in (emb text, w\<lparr>embed_log := embed_log w @ [text]\<rparr>))"

text \<open>
  Lines 155 to 161, and again lines 187 to 192: the vector of a text is taken from the
  cache, or asked for and put into the cache.
\<close>

definition cached_embedding :: "(pystr \<Rightarrow> vec) \<Rightarrow> pystr \<Rightarrow> agent \<times> world \<Rightarrow> vec \<times> agent \<times> world" where
  "cached_embedding emb text st =
     (case st of (a, w) \<Rightarrow>
        (case embedding_cache a text of
           Some embedding \<Rightarrow> (embedding, a, w)
         | None \<Rightarrow>
             (case get_embedding emb text w of (embedding, w') \<Rightarrow>
                (embedding, a\<lparr>embedding_cache := (embedding_cache a)(text \<mapsto> embedding)\<rparr>, w'))))"

text \<open>The body of the inner loop of \<^verbatim>\<open>load_knowledge\<close>, for one titled record.\<close>

definition load_record :: "(pystr \<Rightarrow> vec) \<Rightarrow> pystr \<times> krecord \<Rightarrow> agent \<times> world \<Rightarrow> agent \<times> world" where
  "load_record emb entry st =
     (case entry of (key, value) \<Rightarrow>
        (case cached_embedding emb key st of (embedding, a, w) \<Rightarrow>
           (a\<lparr>knowledge_embeddings := knowledge_embeddings a @ [embedding],
              knowledge_data := knowledge_data a @ [value]\<rparr>, w)))"

text \<open>
  \<^verbatim>\<open>load_knowledge\<close>: the two loops, and then line 168, which gives the whole list
  \<^verbatim>\<open>knowledge_embeddings\<close> to the index. When the index raises, the records, the
  vectors and the cache entries of the loops stay, and the index is as it was.
\<close>

definition load_knowledge :: "(pystr \<Rightarrow> vec) \<Rightarrow> knowledge \<Rightarrow> unit action" where
  "load_knowledge emb knowledge st =
     (case fold (\<lambda>(category, subcategories). fold (load_record emb) subcategories) knowledge st of
        (a, w) \<Rightarrow>
          (case index_add (index a) (knowledge_embeddings a) of
             Inl e \<Rightarrow> (Inl e, a, w)
           | Inr ix \<Rightarrow> (Inr (), a\<lparr>index := ix\<rparr>, w)))"

text \<open>The loop of lines 199 to 201: the records at the labels, in the order of the labels.\<close>

fun gather :: "'a list \<Rightarrow> int list \<Rightarrow> 'a list \<Rightarrow> error + 'a list" where
  "gather data [] relevant_info = Inr relevant_info"
| "gather data (i # labels) relevant_info =
     (case getitem data i of
        Inl e \<Rightarrow> Inl e
      | Inr x \<Rightarrow> gather data labels (relevant_info @ [x]))"

definition retrieve_knowledge :: "(pystr \<Rightarrow> vec) \<Rightarrow> pystr \<Rightarrow> krecord list action" where
  "retrieve_knowledge emb query st =
     (case cached_embedding emb query st of (query_embedding, a, w) \<Rightarrow>
        (ebind (index_search (index a) query_embedding 5)
           (\<lambda>labels. gather (knowledge_data a) labels []), a, w))"

section \<open>The digest of the retrieved knowledge\<close>

text \<open>
  An f-string shows a text as it is. How it shows a list (Python's \<^verbatim>\<open>repr\<close>) is the
  parameter \<open>repr\<close>. \<^verbatim>\<open>"\n".join\<close> of a text joins its characters.
\<close>

definition format_value :: "(pystr list \<Rightarrow> pystr) \<Rightarrow> pyval \<Rightarrow> pystr" where
  "format_value repr v = (case v of PStr s \<Rightarrow> s | PList xs \<Rightarrow> repr xs)"

definition join_lines :: "pyval \<Rightarrow> pystr" where
  "join_lines v = (case v of PStr s \<Rightarrow> join [10] (map (\<lambda>c. [c]) s) | PList xs \<Rightarrow> join [10] xs)"

text \<open>The lines 390 to 404 of the loop body, after the header of the item.\<close>

definition item_details :: "(pystr list \<Rightarrow> pystr) \<Rightarrow> krecord \<Rightarrow> pystr" where
  "item_details repr item =
     str ''Description: '' @
       (case map_of item (str ''description'') of None \<Rightarrow> str ''N/A'' | Some v \<Rightarrow> format_value repr v) @ [10] @
     (case map_of item (str ''address'') of None \<Rightarrow> [] | Some v \<Rightarrow> str ''Address: '' @ format_value repr v @ [10]) @
     (case map_of item (str ''website'') of None \<Rightarrow> [] | Some v \<Rightarrow> str ''Website: '' @ format_value repr v @ [10]) @
     (case map_of item (str ''tips'') of None \<Rightarrow> [] | Some v \<Rightarrow> str ''Tips:'' @ [10] @ join_lines v @ [10]) @
     [10]"

text \<open>
  The loop of \<^verbatim>\<open>summarize_knowledge\<close>. The name of an item is the first key of the
  record body; a body with no attribute has none, and \<^verbatim>\<open>list(item.keys())[0]\<close>
  raises.
\<close>

fun summarize_loop :: "(pystr list \<Rightarrow> pystr) \<Rightarrow> pystr \<Rightarrow> krecord list \<Rightarrow> error + pystr" where
  "summarize_loop repr summary [] = Inr summary"
| "summarize_loop repr summary (item # knowledge_list) =
     (case getitem (map fst item) 0 of
        Inl e \<Rightarrow> Inl e
      | Inr item_name \<Rightarrow>
          summarize_loop repr
            (summary @ str ''**'' @ item_name @ str ''**'' @ [10] @ item_details repr item)
            knowledge_list)"

definition summarize_knowledge :: "(pystr list \<Rightarrow> pystr) \<Rightarrow> krecord list \<Rightarrow> error + pystr" where
  "summarize_knowledge repr knowledge_list =
     (if knowledge_list = [] then Inr [] else summarize_loop repr [] knowledge_list)"

section \<open>Presenting the itinerary\<close>

definition msg_itinerary_title :: pystr where
  "msg_itinerary_title = [128203, 32, 24744, 30340, 35814, 32454, 26053, 34892, 35745, 21010]"

fun print_items :: "pystr list \<Rightarrow> unit action" where
  "print_items [] = lift (Inr ())"
| "print_items (item # items) = sbind (print item) (\<lambda>_. print_items items)"

fun print_sections :: "itinerary \<Rightarrow> unit action" where
  "print_sections [] = lift (Inr ())"
| "print_sections ((section, items) # itinerary) =
     sbind (print ([10] @ section)) (\<lambda>_.
     sbind (print (replicate 30 (of_char CHR ''-''))) (\<lambda>_.
     sbind (print_items items) (\<lambda>_.
     sbind (print (replicate 20 (of_char CHR ''-''))) (\<lambda>_.
     print_sections itinerary))))"

text \<open>
  \<^verbatim>\<open>present_itinerary\<close>: the text is parsed and the days are counted before
  anything is printed, so a date that does not parse raises with nothing printed. The
  number of days is not used afterwards.
\<close>

definition present_itinerary :: "pystr \<Rightarrow> 'b \<Rightarrow> pystr list \<Rightarrow> unit action" where
  "present_itinerary itinerary_text budget travel_dates =
     (let itinerary = parse_sections itinerary_text in
      sbind (lift (trip_days travel_dates)) (\<lambda>num_days.
      sbind (print ([10] @ replicate 50 (of_char CHR ''=''))) (\<lambda>_.
      sbind (print msg_itinerary_title) (\<lambda>_.
      sbind (print (replicate 50 (of_char CHR ''=''))) (\<lambda>_.
      print_sections itinerary)))))"

section \<open>Planning the trip\<close>

definition msg_collecting :: pystr where
  "msg_collecting = [27491, 22312, 25910, 38598, 24744, 30340, 26053, 34892, 20559, 22909, 46, 46, 46]"

definition msg_generating :: pystr where
  "msg_generating = [129302, 32, 65, 73, 27491, 22312, 20026, 24744, 29983, 25104, 20010, 24615, 21270, 26053, 34892, 35745, 21010, 46, 46, 46]"

definition msg_generated :: pystr where
  "msg_generated = [127881, 32, 24744, 30340, 20010, 24615, 21270, 26053, 34892, 35745, 21010, 24050, 29983, 25104, 58]"

text \<open>The constant parts of the two f-strings of lines 236 to 295.\<close>

definition system_prompt_1 :: pystr where
  "system_prompt_1 =
     str ''You are an expert travel agent specializing in NYC.\<newline>'' @
     str ''                Create a detailed itinerary that includes transportation\<newline>'' @
     str ''                from Montreal to NYC and accommodation in NYC.\<newline>'' @
     str ''                The preferred mode of transport is ''"

definition system_prompt_2 :: pystr where
  "system_prompt_2 =
     str '' and\<newline>'' @
     str ''                the preferred accommodation type is ''"

definition system_prompt_3 :: pystr where
  "system_prompt_3 =
     str ''.\<newline>'' @
     str ''\<newline>'' @
     str ''                The user wants to visit Yankee Stadium and prefers upscale\<newline>'' @
     str ''                hotels and dining experiences.\<newline>'' @
     str ''\<newline>'' @
     str ''                For the Yankee Stadium visit, suggest one of the following\<newline>'' @
     str ''                premium seating options: the Legends Suite Club, the Ford Field\<newline>'' @
     str ''                MVP Club, or the Champion Suite. Do NOT suggest just a basic tour.\<newline>'' @
     str ''\<newline>'' @
     str ''                On the day of the Yankee Stadium visit, the dinner will be\<newline>'' @
     str ''                INSIDE the stadium, either at the Legends Suite Club,\<newline>'' @
     str ''                the Ford Field MVP Club, or the Champion Suite.\<newline>'' @
     str ''\<newline>'' @
     str ''                The Yankee Stadium visit should be scheduled in the AFTERNOON\<newline>'' @
     str ''                or EVENING, as baseball games are not typically played in\<newline>'' @
     str ''                the morning.\<newline>'' @
     str ''\<newline>'' @
     str ''                Use the following format:\<newline>'' @
     str ''\<newline>'' @
     str ''                **Transportation:**\<newline>'' @
     str ''                * [Flight/Train details] ([Estimated Cost: $xxx])\<newline>'' @
     str ''\<newline>'' @
     str ''                **Accommodation:**\<newline>'' @
     str ''                * [Hotel details] ([Estimated Cost per night: $xxx])\<newline>'' @
     str ''\<newline>'' @
     str ''                **Day 1:**\<newline>'' @
     str ''                * **Morning:** [Activity 1] ([Estimated Cost: $xx]) - [Brief Description]\<newline>'' @
     str ''                * **Afternoon:** [Activity 2] ([Estimated Cost: $xx]) - [Brief Description]\<newline>'' @
     str ''                * **Evening:** [Activity 3] ([Estimated Cost: $xx]) - [Brief Description]\<newline>'' @
     str ''                * **Dinner:** [Restaurant Suggestion] ([Estimated Cost per person: $xx])\<newline>'' @
     str ''\<newline>'' @
     str ''                **Day 2:**\<newline>'' @
     str ''                * ... and so on ...\<newline>'' @
     str ''\<newline>'' @
     str ''                Include transportation suggestions, estimated costs, and practical tips.\<newline>'' @
     str ''                Consider the user's budget: $10000\<newline>'' @
     str ''\<newline>'' @
     str ''                It's crucial that you provide specific cost estimations for EACH\<newline>'' @
     str ''                item in the itinerary, including transportation, accommodation,\<newline>'' @
     str ''                activities, meals, and shows.  Do NOT use general price ranges\<newline>'' @
     str ''                like \"expensive\" or \"$$$\" as these are not helpful for budget\<newline>'' @
     str ''                planning.  Instead, provide numerical estimates like \"$25\", \"$150\",\<newline>'' @
     str ''                or \"$40-$60\".\<newline>'' @
     str ''\<newline>'' @
     str ''                At the end of the itinerary, please provide the following:\<newline>'' @
     str ''                * **Total Estimated Cost:** $[total cost]\<newline>'' @
     str ''                * **Remaining Budget:** $[remaining budget]\<newline>'' @
     str ''                * **Budget Utilization:** [total cost]/[budget]\<newline>'' @
     str ''                ''"

definition user_query_1 :: pystr where
  "user_query_1 =
     str ''Plan a NYC trip from ''"

definition user_query_2 :: pystr where
  "user_query_2 =
     str '' to ''"

definition user_query_3 :: pystr where
  "user_query_3 =
     str ''.\<newline>'' @
     str ''                The traveler's preferences are: ''"

definition user_query_4 :: pystr where
  "user_query_4 =
     str '' and their interests include: ''"

definition user_query_5 :: pystr where
  "user_query_5 =
     str ''.\<newline>'' @
     str ''\<newline>'' @
     str ''                Here's some relevant information about NYC: ''"

definition user_query_6 :: pystr where
  "user_query_6 =
     str ''\<newline>'' @
     str ''                ''"

definition system_prompt :: "pystr \<Rightarrow> pystr \<Rightarrow> pystr" where
  "system_prompt transport_mode accommodation_type =
     system_prompt_1 @ transport_mode @ system_prompt_2 @ accommodation_type @ system_prompt_3"

definition user_query :: "(pystr list \<Rightarrow> pystr) \<Rightarrow> pystr list \<Rightarrow> pystr \<Rightarrow> pystr list \<Rightarrow> krecord list \<Rightarrow> error + pystr" where
  "user_query repr travel_dates preferences interests relevant_knowledge =
     ebind (getitem travel_dates 0) (\<lambda>date0.
     ebind (getitem travel_dates 1) (\<lambda>date1.
     ebind (summarize_knowledge repr relevant_knowledge) (\<lambda>digest.
     Inr (user_query_1 @ date0 @ user_query_2 @ date1 @ user_query_3 @ preferences @
          user_query_4 @ join (str '', '') interests @ user_query_5 @ digest @ user_query_6))))"

text \<open>The loop of lines 232 and 233.\<close>

fun retrieve_interests :: "(pystr \<Rightarrow> vec) \<Rightarrow> pystr list \<Rightarrow> krecord list \<Rightarrow> krecord list action" where
  "retrieve_interests emb [] relevant_knowledge = lift (Inr relevant_knowledge)"
| "retrieve_interests emb (interest # interests) relevant_knowledge =
     sbind (retrieve_knowledge emb interest) (\<lambda>found.
     retrieve_interests emb interests (relevant_knowledge @ found))"

text \<open>The call of the generation endpoint, which is the parameter \<open>chat\<close>.\<close>

definition chat_completion :: "(pystr \<Rightarrow> pystr \<Rightarrow> pystr) \<Rightarrow> pystr \<Rightarrow> pystr \<Rightarrow> pystr action" where
  "chat_completion chat system user st =
     (case st of (a, w) \<Rightarrow> (Inr (chat system user), a, w\<lparr>chat_log := chat_log w @ [(system, user)]\<rparr>))"

definition plan_nyc_trip ::
  "(pystr \<Rightarrow> vec) \<Rightarrow> (pystr \<Rightarrow> pystr \<Rightarrow> pystr) \<Rightarrow> (pystr list \<Rightarrow> pystr) \<Rightarrow>
   pystr list \<Rightarrow> 'b \<Rightarrow> pystr \<Rightarrow> pystr list \<Rightarrow> unit action" where
  "plan_nyc_trip emb chat repr travel_dates budget preferences interests =
     sbind (print msg_collecting) (\<lambda>_.
     sbind (input (str ''Preferred mode of transport (airplane, train, bus, car): '')) (\<lambda>transport_mode.
     sbind (input (str ''Preferred accommodation type (hotel, Airbnb): '')) (\<lambda>accommodation_type.
     sbind (retrieve_knowledge emb preferences) (\<lambda>found.
     sbind (retrieve_interests emb interests found) (\<lambda>relevant_knowledge.
     sbind (lift (user_query repr travel_dates preferences interests relevant_knowledge)) (\<lambda>query.
     sbind (print msg_generating) (\<lambda>_.
     sbind (chat_completion chat (system_prompt transport_mode accommodation_type) query) (\<lambda>content.
     sbind (print [10]) (\<lambda>_.
     sbind (print msg_generated) (\<lambda>_.
     sbind (print content) (\<lambda>_.
     present_itinerary content budget travel_dates)))))))))))"

section \<open>Starting the program\<close>

text \<open>
  The environment maps the names of its variables to their values, as they are when
  line 59 runs. The client of line 59 is made when the module is loaded, by either script:
  after the imports it is the first statement of the program, and the example script
  imports the module before it does anything else. The constructor of the client library
  is applied to the value of \<^verbatim>\<open>OPENAI_API_KEY\<close>, which is \<^verbatim>\<open>None\<close> when the
  variable is not set. The library is not part of the repository. Its constructor is the
  parameter \<open>ctor\<close>: in an environment, which it may read, and given a key or
  none, it returns a client or raises.
\<close>

type_synonym environ = "pystr \<rightharpoonup> pystr"

definition client :: "(environ \<Rightarrow> pystr option \<Rightarrow> error + 'c) \<Rightarrow> environ \<Rightarrow> error + 'c" where
  "client ctor env = ctor env (env (str ''OPENAI_API_KEY''))"

text \<open>
  Modelled from the spec: the constructor \<^verbatim>\<open>OpenAI\<close> of the client library, which
  the repository does not contain. The spec has one required variable that supplies the
  credential of both endpoints, a client that is constructed once at process scope, and
  a process that ends when the variable is absent. A constructor requires the key in an
  environment when it raises there where it is given none.
\<close>

definition requires_key :: "(environ \<Rightarrow> pystr option \<Rightarrow> error + 'c) \<Rightarrow> environ \<Rightarrow> bool" where
  "requires_key ctor env \<longleftrightarrow> (\<exists>e. ctor env None = Inl e)"

definition msg_setting_up :: pystr where
  "msg_setting_up = [128295, 32, 27491, 22312, 35774, 32622, 36816, 34892, 29615, 22659, 46, 46, 46]"

definition msg_key_missing :: pystr where
  "msg_key_missing = [10060, 32, 38169, 35823, 58, 32, 26410, 25214, 21040, 79, 80, 69, 78, 65, 73, 95, 65, 80, 73, 95, 75, 69, 89, 29615, 22659, 21464, 37327]"

definition msg_set_key :: pystr where
  "msg_set_key = [35831, 35774, 32622, 24744, 30340, 79, 112, 101, 110, 65, 73, 32, 65, 80, 73, 23494, 38053, 58]"

definition msg_export :: pystr where
  "msg_export = str ''export OPENAI_API_KEY='' @ [39] @ str ''your_api_key_here'' @ [39]"

definition msg_key_found :: pystr where
  "msg_key_found = [9989, 32, 79, 112, 101, 110, 65, 73, 32, 65, 80, 73, 23494, 38053, 24050, 37197, 32622]"

definition msg_packages_found :: pystr where
  "msg_packages_found = [9989, 32, 25152, 26377, 20381, 36182, 21253, 24050, 23433, 35013]"

definition msg_package_missing :: pystr where
  "msg_package_missing = [10060, 32, 38169, 35823, 58, 32, 32570, 23569, 20381, 36182, 21253, 32, 45, 32]"

definition msg_pip_install :: pystr where
  "msg_pip_install = [35831, 36816, 34892, 58, 32, 112, 105, 112, 32, 105, 110, 115, 116, 97, 108, 108, 32, 111, 112, 101, 110, 97, 105, 32, 102, 97, 105, 115, 115, 45, 99, 112, 117, 32, 110, 117, 109, 112, 121]"

definition println :: "pystr \<Rightarrow> world \<Rightarrow> world" where
  "println s w = write_out (s @ [10]) w"

text \<open>
  \<^verbatim>\<open>TravelPlannerDemo.setup_environment\<close>. \<^verbatim>\<open>not api_key\<close> holds of a variable
  that is not set and of an empty one. \<open>import_error\<close> is the message of the
  \<^verbatim>\<open>ImportError\<close> of lines 60 to 62, if they raise one.
\<close>

definition setup_environment :: "environ \<Rightarrow> pystr option \<Rightarrow> world \<Rightarrow> (error + unit) \<times> world" where
  "setup_environment env import_error w =
     (let w1 = println msg_setting_up w;
          api_key = env (str ''OPENAI_API_KEY'')
      in if api_key = None \<or> api_key = Some []
         then (Inl (SystemExit 1), println msg_export (println msg_set_key (println msg_key_missing w1)))
         else
           (let w2 = println msg_key_found w1
            in case import_error of
                 None \<Rightarrow> (Inr (), println msg_packages_found w2)
               | Some e \<Rightarrow> (Inl (SystemExit 1), println msg_pip_install (println (msg_package_missing @ e) w2))))"

text \<open>What \<^verbatim>\<open>setup_environment\<close> prints after its first line when the key is missing.\<close>

definition missing_key_diagnostic :: pystr where
  "missing_key_diagnostic = msg_key_missing @ [10] @ msg_set_key @ [10] @ msg_export @ [10]"

text \<open>
  \<^verbatim>\<open>TravelPlannerDemo()\<close>: the constructor sets the agent to \<^verbatim>\<open>None\<close> and calls
  \<^verbatim>\<open>setup_environment\<close>.
\<close>

definition TravelPlannerDemo :: "environ \<Rightarrow> pystr option \<Rightarrow> world \<Rightarrow> (error + unit) \<times> world" where
  "TravelPlannerDemo env import_error w = setup_environment env import_error w"

text \<open>
  What the modes of the example script do once \<^verbatim>\<open>TravelPlannerDemo()\<close> has returned,
  and what mode 3 does, is not followed here. It is a parameter: \<open>run_demo\<close> for
  \<^verbatim>\<open>demo.run_demo()\<close>, \<open>quick_demo_steps\<close> for the three calls that follow the
  constructor in \<^verbatim>\<open>run_quick_demo\<close>, \<open>test_vector_search\<close> for the function of
  that name, and \<open>exception_text\<close> for the text an f-string shows for an exception.
\<close>

record example_rest =
  run_demo :: "world \<Rightarrow> (error + unit) \<times> world"
  quick_demo_steps :: "world \<Rightarrow> (error + unit) \<times> world"
  test_vector_search :: "world \<Rightarrow> (error + unit) \<times> world"
  exception_text :: "error \<Rightarrow> pystr"

definition msg_quick_demo :: pystr where
  "msg_quick_demo = [128640, 32, 65, 73, 26053, 34892, 35268, 21010, 31995, 32479, 32, 45, 32, 24555, 36895, 28436, 31034]"

definition msg_demo_error :: pystr where
  "msg_demo_error = [10060, 32, 28436, 31034, 36807, 31243, 20013, 21457, 29983, 38169, 35823, 58, 32]"

definition msg_examples :: pystr where
  "msg_examples = [127919, 32, 65, 73, 26053, 34892, 35268, 21010, 31995, 32479, 32, 45, 32, 20351, 29992, 31034, 20363]"

definition msg_choose_mode :: pystr where
  "msg_choose_mode = [35831, 36873, 25321, 36816, 34892, 27169, 24335, 58]"

definition msg_mode_1 :: pystr where
  "msg_mode_1 = [49, 46, 32, 23436, 25972, 28436, 31034, 32, 40, 20132, 20114, 24335, 41]"

definition msg_mode_2 :: pystr where
  "msg_mode_2 = [50, 46, 32, 24555, 36895, 28436, 31034, 32, 40, 39044, 35774, 21442, 25968, 41]"

definition msg_mode_3 :: pystr where
  "msg_mode_3 = [51, 46, 32, 27979, 35797, 21521, 37327, 25628, 32034]"

definition msg_mode_4 :: pystr where
  "msg_mode_4 = [52, 46, 32, 36864, 20986]"

definition msg_enter_choice :: pystr where
  "msg_enter_choice = [10, 35831, 36755, 20837, 36873, 25321, 32, 40, 49, 45, 52, 41, 58, 32]"

definition msg_goodbye :: pystr where
  "msg_goodbye = [128075, 32, 20877, 35265, 65281]"

definition msg_invalid_choice :: pystr where
  "msg_invalid_choice = [10060, 32, 26080, 25928, 36873, 25321, 65292, 35831, 37325, 26032, 36755, 20837]"

text \<open>
  \<^verbatim>\<open>run_quick_demo\<close>. Its handler is \<^verbatim>\<open>except Exception\<close>: it catches every
  exception of the model but \<^verbatim>\<open>SystemExit\<close>, which is no \<^verbatim>\<open>Exception\<close>, prints
  the exception and returns.
\<close>

definition except_Exception ::
  "(error \<Rightarrow> pystr) \<Rightarrow> (error + unit) \<times> world \<Rightarrow> (error + unit) \<times> world" where
  "except_Exception text r =
     (case r of
        (Inr u, w) \<Rightarrow> (Inr u, w)
      | (Inl (SystemExit n), w) \<Rightarrow> (Inl (SystemExit n), w)
      | (Inl e, w) \<Rightarrow> (Inr (), println (msg_demo_error @ text e) w))"

definition run_quick_demo :: "environ \<Rightarrow> pystr option \<Rightarrow> example_rest \<Rightarrow> world \<Rightarrow> (error + unit) \<times> world" where
  "run_quick_demo env import_error rest w =
     (let w1 = println (replicate 50 (of_char CHR ''='')) (println msg_quick_demo w)
      in except_Exception (exception_text rest)
           (case TravelPlannerDemo env import_error w1 of
              (Inl e, w2) \<Rightarrow> (Inl e, w2)
            | (Inr u, w2) \<Rightarrow> quick_demo_steps rest w2))"

text \<open>
  The loop of \<^verbatim>\<open>main\<close> in the example script, on the lines still to be read from the
  console: a line is read and stripped; the choices 1 to 4 end the loop, any other line
  is answered and the loop goes on. At the end of the input \<^verbatim>\<open>input\<close> raises.
\<close>

fun main_menu :: "environ \<Rightarrow> pystr option \<Rightarrow> example_rest \<Rightarrow> pystr list \<Rightarrow> world \<Rightarrow> (error + unit) \<times> world" where
  "main_menu env import_error rest [] w = (Inl EOFError, write_out msg_enter_choice w)"
| "main_menu env import_error rest (line # lines) w =
     (let w1 = (write_out msg_enter_choice w)\<lparr>stdin := lines\<rparr>;
          choice = strip line
      in if choice = str ''1'' then
           (case TravelPlannerDemo env import_error w1 of
              (Inl e, w2) \<Rightarrow> (Inl e, w2)
            | (Inr u, w2) \<Rightarrow> run_demo rest w2)
         else if choice = str ''2'' then run_quick_demo env import_error rest w1
         else if choice = str ''3'' then test_vector_search rest w1
         else if choice = str ''4'' then (Inr (), println msg_goodbye w1)
         else main_menu env import_error rest lines (println msg_invalid_choice w1))"

definition example_main :: "environ \<Rightarrow> pystr option \<Rightarrow> example_rest \<Rightarrow> world \<Rightarrow> (error + unit) \<times> world" where
  "example_main env import_error rest w =
     (let w0 = println msg_mode_4 (println msg_mode_3 (println msg_mode_2 (println msg_mode_1
                (println msg_choose_mode (println (replicate 50 (of_char CHR ''=''))
                (println msg_examples w))))))
      in main_menu env import_error rest (stdin w0) w0)"

text \<open>
  A run of a script: the module is loaded, which makes the client, and then the rest of
  the script runs, here the parameter \<open>body\<close>. The interpreter ends with status 0
  when the script returns, with the status of a \<^verbatim>\<open>SystemExit\<close>, and with status 1 and
  a traceback of the exception when any other exception reaches it. The result is the
  status, the exception of the traceback if there is one, and the world.
\<close>

definition run_script ::
  "(environ \<Rightarrow> pystr option \<Rightarrow> error + 'c) \<Rightarrow> environ \<Rightarrow> ('c \<Rightarrow> world \<Rightarrow> (error + unit) \<times> world) \<Rightarrow> world \<Rightarrow>
   nat \<times> error option \<times> world" where
  "run_script ctor env body w =
     (case client ctor env of
        Inl e \<Rightarrow> (1, Some e, w)
      | Inr c \<Rightarrow>
          (case body c w of
             (Inr _, w') \<Rightarrow> (0, None, w')
           | (Inl (SystemExit n), w') \<Rightarrow> (nat (n mod 256), None, w')
           | (Inl e, w') \<Rightarrow> (1, Some e, w')))"

text \<open>The example script: the module of the agent is loaded, and \<^verbatim>\<open>main\<close> runs.\<close>

definition example_script ::
  "(environ \<Rightarrow> pystr option \<Rightarrow> error + 'c) \<Rightarrow> environ \<Rightarrow> pystr option \<Rightarrow> example_rest \<Rightarrow> world \<Rightarrow>
   nat \<times> error option \<times> world" where
  "example_script ctor env import_error rest w =
     run_script ctor env (\<lambda>c. example_main env import_error rest) w"

section \<open>The knowledge base of the program\<close>

text \<open>The dictionary \<^verbatim>\<open>nyc_knowledge\<close> of lines 418 to 452.\<close>

definition nyc_knowledge :: knowledge where
  "nyc_knowledge =
   [(str ''attractions'',
    [(str ''Empire State Building'',
      [(str ''description'',
        PStr (str ''Iconic skyscraper with observation decks offering stunning views of the city.'')),
       (str ''address'',
        PStr (str ''350 Fifth Avenue, Manhattan'')),
       (str ''website'',
        PStr (str ''www.esbnyc.com'')),
       (str ''tips'',
        PList
          [str ''Purchase tickets online in advance to avoid long lines.'',
           str ''Visit during the day and at night for different perspectives.''])]),
     (str ''Central Park'',
      [(str ''description'',
        PStr (str ''A vast green oasis in the heart of Manhattan, perfect for picnics, walks, bike rides, and boating.'')),
       (str ''activities'',
        PList
          [str ''visit the Central Park Zoo'',
           str ''rent a rowboat on The Lake'',
           str ''see a performance at the Delacorte Theater'',
           str ''have a picnic on the Great Lawn'']),
       (str ''tips'',
        PList
          [str ''Download a map of the park to navigate its many paths and attractions.''])]),
     (str ''The Metropolitan Museum of Art'',
      [(str ''description'',
        PStr (str ''One of the world's largest and finest art museums.'')),
       (str ''address'',
        PStr (str ''1000 Fifth Avenue, Manhattan'')),
       (str ''website'',
        PStr (str ''www.metmuseum.org'')),
       (str ''tips'',
        PList
          [str ''Allow ample time to explore the vast collection.'',
           str ''Consider purchasing a guided tour for a more in-depth experience.''])])])]"

section \<open>Notions used in the properties\<close>

text \<open>The titled records of a knowledge base, in the order in which the two loops visit them.\<close>

definition records :: "knowledge \<Rightarrow> (pystr \<times> krecord) list" where
  "records knowledge = concat (map snd knowledge)"

text \<open>Every vector in the cache is the one the endpoint gives for its text.\<close>

definition cache_agrees :: "(pystr \<Rightarrow> vec) \<Rightarrow> agent \<Rightarrow> bool" where
  "cache_agrees emb a \<longleftrightarrow>
     (\<forall>t e w. embedding_cache a t = Some e \<longrightarrow> e = fst (get_embedding emb t w))"

text \<open>A method keeps every entry of the cache, whether it returns or raises.\<close>

definition cache_grows :: "'a action \<Rightarrow> bool" where
  "cache_grows m \<longleftrightarrow> (\<forall>st. embedding_cache (fst st) \<subseteq>\<^sub>m embedding_cache (fst (snd (m st))))"

text \<open>A knowledge base of \<open>n\<close> records with the titles "", "a", "aa" and so on.\<close>

definition many_titles :: "nat \<Rightarrow> knowledge" where
  "many_titles n = [(str ''attractions'', map (\<lambda>i. (replicate i 97, [])) [0..<n])]"

text \<open>
  The first line of the input that the menu of the example script takes as a choice.
\<close>

fun first_choice :: "pystr list \<Rightarrow> pystr option" where
  "first_choice [] = None"
| "first_choice (line # lines) =
     (if strip line \<in> {str ''1'', str ''2'', str ''3'', str ''4''} then Some (strip line)
      else first_choice lines)"

text \<open>
  Two constructors for running the model. The first requires the key: given none, it
  looks the variable up itself and raises when it is not set. The second never raises.
\<close>

definition strict_ctor :: "environ \<Rightarrow> pystr option \<Rightarrow> error + pystr" where
  "strict_ctor env api_key =
     (case api_key of
        Some k \<Rightarrow> Inr k
      | None \<Rightarrow> (case env (str ''OPENAI_API_KEY'') of None \<Rightarrow> Inl OpenAIError | Some k \<Rightarrow> Inr k))"

definition lenient_ctor :: "environ \<Rightarrow> pystr option \<Rightarrow> error + pystr" where
  "lenient_ctor env api_key = (case api_key of None \<Rightarrow> Inr [] | Some k \<Rightarrow> Inr k)"

text \<open>A rest of the example script that does nothing, for running the model.\<close>

definition idle_rest :: example_rest where
  "idle_rest = \<lparr>run_demo = (\<lambda>w. (Inr (), w)), quick_demo_steps = (\<lambda>w. (Inr (), w)),
                 test_vector_search = (\<lambda>w. (Inr (), w)), exception_text = (\<lambda>e. [])\<rparr>"

text \<open>
  A text with no label in it: the pattern of the labels matches at none of its positions.
\<close>

fun label_free :: "pystr \<Rightarrow> bool" where
  "label_free [] = True"
| "label_free (c # cs) = (match_label (c # cs) = None \<and> label_free cs)"

text \<open>
  What the loop stores for the text after a label: the text without the whitespace around
  it, as one fragment, and nothing when only whitespace is there.
\<close>

definition fragment :: "pystr \<Rightarrow> pystr list" where
  "fragment t = (if strip t = [] then [] else [strip t])"

text \<open>The characters a label starts with.\<close>

definition label_initial :: "nat \<Rightarrow> bool" where
  "label_initial h \<longleftrightarrow> h = of_char CHR ''T'' \<or> h = of_char CHR ''A'' \<or> h = of_char CHR ''D''"

text \<open>
  An embedding endpoint for running the model: the vector of a text has one component,
  the code point of its first character.
\<close>

definition initial_emb :: "pystr \<Rightarrow> vec" where
  "initial_emb t = (case t of [] \<Rightarrow> [0] | c # _ \<Rightarrow> [real c])"

definition quiet_world :: world where
  "quiet_world = \<lparr>embed_log = [], chat_log = [], stdout = [], stdin = []\<rparr>"

section \<open>The length of the trip\<close>

lemma print_returns: "fst (print s st) = Inr ()"
  by (simp add: print_def split_beta)

lemma sbind_lift: "sbind (lift (Inr x)) f st = f x st"
  by (simp add: sbind_def lift_def)

lemma sbind_unit:
  assumes "\<And>st. fst (m st) = Inr ()"
  shows "fst (sbind m f st) = fst (f () (snd (m st)))"
  using assms [of st] by (cases "m st") (simp add: sbind_def)

lemma print_items_returns: "fst (print_items items st) = Inr ()"
  by (induction items arbitrary: st) (simp_all add: lift_def sbind_unit print_returns)

lemma print_sections_returns: "fst (print_sections itinerary st) = Inr ()"
proof (induction itinerary arbitrary: st rule: print_sections.induct)
  case 1
  show ?case by (simp add: lift_def)
next
  case (2 sec items itinerary)
  show ?case
    by (simp add: sbind_unit print_returns print_items_returns "2.IH")
qed

text \<open>
  Claim C7. For the travel dates "2024-04-10" and "2024-04-15" the number of days that
  \<^verbatim>\<open>present_itinerary\<close> computes, the end date minus the start date in elapsed days,
  is 5; and with these dates \<^verbatim>\<open>present_itinerary\<close> returns, for every itinerary
  text.
\<close>

theorem trip_days_april:
  "trip_days [str ''2024-04-10'', str ''2024-04-15''] = Inr 5 \<and>
   fst (present_itinerary itinerary_text budget [str ''2024-04-10'', str ''2024-04-15''] st) = Inr ()"
proof -
  have days: "trip_days [str ''2024-04-10'', str ''2024-04-15''] = Inr 5"
    by (simp add: trip_days_def ebind_def getitem_def strptime_def strptime_match_def str_def
        isdecimal_def digit_value_def nd_zeros_def in_range_def days_in_month_def DAYS_IN_MONTH_def
        is_leap_def ymd2ord_def days_before_year_def days_before_month_def)
  have "fst (present_itinerary itinerary_text budget [str ''2024-04-10'', str ''2024-04-15''] st) = Inr ()"
    unfolding present_itinerary_def Let_def days
    by (simp add: sbind_lift sbind_unit print_returns print_sections_returns)
  with days show ?thesis by simp
qed

section \<open>The budget\<close>

text \<open>
  Claim C10. The budget given to \<^verbatim>\<open>present_itinerary\<close> has no effect: for every
  itinerary text, every list of travel dates, every agent and world it starts from and
  every two budgets, the two runs give the same result, the same agent and the same world,
  which holds the console output.
\<close>

theorem present_itinerary_budget:
  "present_itinerary itinerary_text b1 travel_dates st =
   present_itinerary itinerary_text b2 travel_dates st"
  by (simp add: present_itinerary_def)

section \<open>Loading the knowledge base\<close>

text \<open>The vector of a text does not depend on the world it is asked in.\<close>


lemma get_embedding_fst: "fst (get_embedding emb t w) = fst (get_embedding emb t w')"
  by (simp add: get_embedding_def Let_def)

lemma fold_categories:
  "fold (\<lambda>(category, subcategories). fold (load_record emb) subcategories) knowledge st =
   fold (load_record emb) (records knowledge) st"
  by (induction knowledge arbitrary: st) (auto simp: records_def)

lemma load_knowledge_records:
  "load_knowledge emb knowledge st =
     (case fold (load_record emb) (records knowledge) st of
        (a, w) \<Rightarrow>
          (case index_add (index a) (knowledge_embeddings a) of
             Inl e \<Rightarrow> (Inl e, a, w)
           | Inr ix \<Rightarrow> (Inr (), a\<lparr>index := ix\<rparr>, w)))"
  by (simp add: load_knowledge_def fold_categories)

lemma cached_embedding_cases:
  "cached_embedding emb t (a, w) =
     (case embedding_cache a t of
        Some e \<Rightarrow> (e, a, w)
      | None \<Rightarrow> (fst (get_embedding emb t w),
                 a\<lparr>embedding_cache := (embedding_cache a)(t \<mapsto> fst (get_embedding emb t w))\<rparr>,
                 snd (get_embedding emb t w)))"
  by (simp add: cached_embedding_def split: option.split prod.split)

lemma load_record_data:
  "knowledge_data (fst (load_record emb r st)) = knowledge_data (fst st) @ [snd r]"
  by (cases st; cases r) (simp add: load_record_def cached_embedding_cases split: option.split)

lemma load_record_index:
  "index (fst (load_record emb r st)) = index (fst st)"
  by (cases st; cases r) (simp add: load_record_def cached_embedding_cases split: option.split)

lemma load_record_embeddings:
  "cache_agrees emb (fst st) \<Longrightarrow>
   knowledge_embeddings (fst (load_record emb r st)) =
     knowledge_embeddings (fst st) @ [fst (get_embedding emb (fst r) w0)]"
  by (cases st; cases r)
     (auto simp: load_record_def cached_embedding_cases cache_agrees_def get_embedding_def Let_def split: option.split)

lemma load_record_agrees:
  "cache_agrees emb (fst st) \<Longrightarrow> cache_agrees emb (fst (load_record emb r st))"
  by (cases st; cases r)
     (auto simp: load_record_def cached_embedding_cases cache_agrees_def get_embedding_def Let_def split: option.split)

lemma load_record_cache_le:
  "embedding_cache (fst st) \<subseteq>\<^sub>m embedding_cache (fst (load_record emb r st))"
  by (cases st; cases r)
     (auto simp: load_record_def cached_embedding_cases map_le_def split: option.split)

lemma load_record_dom:
  "dom (embedding_cache (fst (load_record emb r st))) = insert (fst r) (dom (embedding_cache (fst st)))"
  by (cases st; cases r)
     (auto simp: load_record_def cached_embedding_cases split: option.split)

lemma load_record_hit:
  "fst r \<in> dom (embedding_cache (fst st)) \<Longrightarrow> snd (load_record emb r st) = snd st"
  by (cases st; cases r)
     (auto simp: load_record_def cached_embedding_cases split: option.split)

lemma load_records_data:
  "knowledge_data (fst (fold (load_record emb) rs st)) = knowledge_data (fst st) @ map snd rs"
  by (induction rs arbitrary: st) (simp_all add: load_record_data)

lemma load_records_index:
  "index (fst (fold (load_record emb) rs st)) = index (fst st)"
  by (induction rs arbitrary: st) (simp_all add: load_record_index)

lemma load_records_agrees:
  "cache_agrees emb (fst st) \<Longrightarrow> cache_agrees emb (fst (fold (load_record emb) rs st))"
  by (induction rs arbitrary: st) (simp_all add: load_record_agrees)

lemma load_records_embeddings:
  "cache_agrees emb (fst st) \<Longrightarrow>
   knowledge_embeddings (fst (fold (load_record emb) rs st)) =
     knowledge_embeddings (fst st) @ map (\<lambda>r. fst (get_embedding emb (fst r) w0)) rs"
proof (induction rs arbitrary: st)
  case Nil
  then show ?case by simp
next
  case (Cons r rs)
  from Cons.prems have "cache_agrees emb (fst (load_record emb r st))"
    by (rule load_record_agrees)
  from Cons.IH [OF this] Cons.prems show ?case
    by (simp add: load_record_embeddings [where ?w0.0 = w0])
qed

lemma load_records_cache_le:
  "embedding_cache (fst st) \<subseteq>\<^sub>m embedding_cache (fst (fold (load_record emb) rs st))"
proof (induction rs arbitrary: st)
  case Nil
  then show ?case by simp
next
  case (Cons r rs)
  have "embedding_cache (fst st) \<subseteq>\<^sub>m embedding_cache (fst (load_record emb r st))"
    by (rule load_record_cache_le)
  also have "\<dots> \<subseteq>\<^sub>m embedding_cache (fst (fold (load_record emb) rs (load_record emb r st)))"
    by (rule Cons.IH)
  finally show ?case by simp
qed

lemma load_records_dom:
  "dom (embedding_cache (fst (fold (load_record emb) rs st))) =
     dom (embedding_cache (fst st)) \<union> fst ` set rs"
  by (induction rs arbitrary: st) (auto simp: load_record_dom)

lemma load_records_hit:
  "fst ` set rs \<subseteq> dom (embedding_cache (fst st)) \<Longrightarrow>
   snd (fold (load_record emb) rs st) = snd st"
proof (induction rs arbitrary: st)
  case Nil
  then show ?case by simp
next
  case (Cons r rs)
  from Cons.prems have "fst ` set rs \<subseteq> dom (embedding_cache (fst (load_record emb r st)))"
    by (auto simp: load_record_dom)
  from Cons.IH [OF this] Cons.prems show ?case
    by (simp add: load_record_hit)
qed


lemma Agent_agrees: "cache_agrees emb (Agent nm cs d)"
  by (simp add: cache_agrees_def Agent_def)

text \<open>What the loops of \<^verbatim>\<open>load_knowledge\<close> leave, whether line 168 raises or not.\<close>

lemma load_knowledge_fields:
  "knowledge_data (fst (snd (load_knowledge emb kb st))) = knowledge_data (fst st) @ map snd (records kb)"
  "embedding_cache (fst (snd (load_knowledge emb kb st))) =
     embedding_cache (fst (fold (load_record emb) (records kb) st))"
  "knowledge_embeddings (fst (snd (load_knowledge emb kb st))) =
     knowledge_embeddings (fst (fold (load_record emb) (records kb) st))"
  by (simp_all add: load_knowledge_records split_beta load_records_data split: sum.split)

lemma load_knowledge_world:
  "snd (snd (load_knowledge emb kb st)) = snd (fold (load_record emb) (records kb) st)"
  by (simp add: load_knowledge_records split_beta split: sum.split)

lemma load_knowledge_index:
  "fst (load_knowledge emb kb st) =
     (case index_add (index (fst st)) (knowledge_embeddings (fst (fold (load_record emb) (records kb) st))) of
        Inl e \<Rightarrow> Inl e | Inr ix \<Rightarrow> Inr ())"
  "index (fst (snd (load_knowledge emb kb st))) =
     (case index_add (index (fst st)) (knowledge_embeddings (fst (fold (load_record emb) (records kb) st))) of
        Inl e \<Rightarrow> index (fst st) | Inr ix \<Rightarrow> ix)"
  by (simp_all add: load_knowledge_records split_beta load_records_index split: sum.split)

lemma load_knowledge_agrees:
  "cache_agrees emb (fst st) \<Longrightarrow> cache_agrees emb (fst (snd (load_knowledge emb kb st)))"
  using load_records_agrees [of emb st "records kb"]
  by (simp add: cache_agrees_def load_knowledge_fields)

lemma load_knowledge_embeddings:
  "cache_agrees emb (fst st) \<Longrightarrow>
   knowledge_embeddings (fst (snd (load_knowledge emb kb st))) =
     knowledge_embeddings (fst st) @ map (\<lambda>r. fst (get_embedding emb (fst r) w0)) (records kb)"
  by (simp add: load_knowledge_fields load_records_embeddings [where ?w0.0 = w0])

text \<open>Vectors of the dimension of the index are added, unless there is none to add.\<close>

lemma index_add_uniform:
  assumes "\<forall>x\<in>set xs. length x = idx_d ix"
  shows "index_add ix xs =
         (if xs = [] then Inl ValueError else Inr (ix\<lparr>idx_xb := idx_xb ix @ xs\<rparr>))"
proof (cases "xs = []")
  case True
  then show ?thesis by (simp add: index_add_def)
next
  case False
  then have "hd xs \<in> set xs" by simp
  with assms have l: "\<not> length (hd xs) \<noteq> idx_d ix" by blast
  with assms have u: "\<not> (\<exists>x\<in>set xs. length x \<noteq> length (hd xs))" by metis
  show ?thesis
    unfolding index_add_def by (simp only: u l False if_False simp_thms)
qed

lemma load_knowledge_uniform:
  assumes "\<forall>t. length (emb t) = idx_d (index (fst st))"
    and "cache_agrees emb (fst st)"
    and "\<forall>x\<in>set (knowledge_embeddings (fst st)). length x = idx_d (index (fst st))"
  shows "fst (load_knowledge emb kb st) =
           (if knowledge_embeddings (fst st) = [] \<and> records kb = [] then Inl ValueError else Inr ())"
    and "idx_xb (index (fst (snd (load_knowledge emb kb st)))) =
           idx_xb (index (fst st)) @ knowledge_embeddings (fst st) @
           map (\<lambda>r. fst (get_embedding emb (fst r) w0)) (records kb)"
    and "idx_d (index (fst (snd (load_knowledge emb kb st)))) = idx_d (index (fst st))"
proof -
  let ?E = "map (\<lambda>r. fst (get_embedding emb (fst r) w0)) (records kb)"
  let ?all = "knowledge_embeddings (fst st) @ ?E"
  have ke: "knowledge_embeddings (fst (fold (load_record emb) (records kb) st)) = ?all"
    using assms(2) by (rule load_records_embeddings)
  have "\<forall>x\<in>set ?E. length x = idx_d (index (fst st))"
    using assms(1) by (simp add: get_embedding_def Let_def)
  with assms(3) have "\<forall>x\<in>set ?all. length x = idx_d (index (fst st))"
    by auto
  then have add: "index_add (index (fst st)) ?all =
        (if ?all = [] then Inl ValueError
         else Inr ((index (fst st))\<lparr>idx_xb := idx_xb (index (fst st)) @ ?all\<rparr>))"
    by (rule index_add_uniform)
  show "fst (load_knowledge emb kb st) =
          (if knowledge_embeddings (fst st) = [] \<and> records kb = [] then Inl ValueError else Inr ())"
    by (simp add: load_knowledge_index ke add)
  show "idx_xb (index (fst (snd (load_knowledge emb kb st)))) = idx_xb (index (fst st)) @ ?all"
    by (simp add: load_knowledge_index ke add)
  show "idx_d (index (fst (snd (load_knowledge emb kb st)))) = idx_d (index (fst st))"
    by (simp add: load_knowledge_index ke add)
qed

text \<open>
  Claim C1. For every knowledge base with N titled records, where the embedding endpoint
  gives vectors of the dimension of the index, after one call of \<^verbatim>\<open>load_knowledge\<close>
  on a fresh agent the index holds exactly N vectors and the data sequence N records, and
  for every position \<open>i\<close> the vector at \<open>i\<close> in the index is the embedding of the
  title of the \<open>i\<close>-th record of the knowledge base and the entry at \<open>i\<close> of
  \<^verbatim>\<open>knowledge_data\<close> is the body of that record: index and data are aligned, in the
  order of insertion. The call returns, unless the knowledge base has no record: then the
  index raises \<^verbatim>\<open>ValueError\<close>, with index and data empty. This needs no assumption
  on the titles, so it holds in particular when no title occurs twice.
\<close>

theorem load_knowledge_aligned:
  assumes "\<forall>t. length (emb t) = d"
    and "load_knowledge emb kb (Agent nm cs d, w) = (r, a', w')"
  shows "r = (if records kb = [] then Inl ValueError else Inr ()) \<and>
         length (idx_xb (index a')) = length (records kb) \<and>
         length (knowledge_data a') = length (records kb) \<and>
         (\<forall>i<length (records kb).
            idx_xb (index a') ! i = fst (get_embedding emb (fst (records kb ! i)) w) \<and>
            knowledge_data a' ! i = snd (records kb ! i))"
proof -
  let ?st = "(Agent nm cs d, w)"
  have r: "r = fst (load_knowledge emb kb ?st)" and a': "a' = fst (snd (load_knowledge emb kb ?st))"
    using assms(2) by simp_all
  have fresh: "\<forall>t. length (emb t) = idx_d (index (fst ?st))" "cache_agrees emb (fst ?st)"
    "\<forall>x\<in>set (knowledge_embeddings (fst ?st)). length x = idx_d (index (fst ?st))"
    using assms(1) by (simp_all add: Agent_agrees) (simp_all add: Agent_def IndexFlatL2_def)
  have res: "r = (if records kb = [] then Inl ValueError else Inr ())"
    unfolding r load_knowledge_uniform(1) [OF fresh] by (simp add: Agent_def)
  have xb: "idx_xb (index a') = map (\<lambda>r. fst (get_embedding emb (fst r) w)) (records kb)"
    unfolding a' load_knowledge_uniform(2) [OF fresh, where ?w0.0 = w]
    by (simp add: Agent_def IndexFlatL2_def)
  have kd: "knowledge_data a' = map snd (records kb)"
    unfolding a' by (simp add: load_knowledge_fields) (simp add: Agent_def)
  show ?thesis by (simp add: res xb kd)
qed

theorem load_knowledge_aligned_witness:
  "fst (load_knowledge initial_emb nyc_knowledge (Agent (str ''NYCAI'') 1000 1, quiet_world)) = Inr () \<and>
   length (idx_xb (index (fst (snd (load_knowledge initial_emb nyc_knowledge (Agent (str ''NYCAI'') 1000 1, quiet_world)))))) = 3 \<and>
   idx_xb (index (fst (snd (load_knowledge initial_emb nyc_knowledge (Agent (str ''NYCAI'') 1000 1, quiet_world))))) ! 1 = [67] \<and>
   map_of (knowledge_data (fst (snd (load_knowledge initial_emb nyc_knowledge (Agent (str ''NYCAI'') 1000 1, quiet_world)))) ! 1)
     (str ''tips'') = Some (PList [str ''Download a map of the park to navigate its many paths and attractions.''])"
proof -
  have len: "length (records nyc_knowledge) = 3"
    by (simp add: records_def nyc_knowledge_def)
  have r1: "records nyc_knowledge ! 1 = hd (tl (records nyc_knowledge))"
    by (simp add: records_def nyc_knowledge_def)
  have ne: "records nyc_knowledge \<noteq> []"
    using len by auto
  have dims: "\<forall>t. length (initial_emb t) = 1"
    by (simp add: initial_emb_def split: list.split)
  have "load_knowledge initial_emb nyc_knowledge (Agent (str ''NYCAI'') 1000 1, quiet_world) =
        (fst (load_knowledge initial_emb nyc_knowledge (Agent (str ''NYCAI'') 1000 1, quiet_world)),
         fst (snd (load_knowledge initial_emb nyc_knowledge (Agent (str ''NYCAI'') 1000 1, quiet_world))),
         snd (snd (load_knowledge initial_emb nyc_knowledge (Agent (str ''NYCAI'') 1000 1, quiet_world))))"
    by simp
  from load_knowledge_aligned [OF dims this] show ?thesis
    unfolding len r1 using ne
    by (simp add: records_def nyc_knowledge_def get_embedding_def initial_emb_def str_def)
qed

text \<open>
  Claim C3. A second call of \<^verbatim>\<open>load_knowledge\<close> on the same agent with the same
  knowledge base sends nothing to the embedding endpoint: every title is found in the cache,
  the world after the second call is the world after the first, and so is the number of
  embedding calls.
\<close>

theorem second_load_no_calls:
  "snd (snd (load_knowledge emb kb (snd (load_knowledge emb kb st)))) =
     snd (snd (load_knowledge emb kb st)) \<and>
   length (embed_log (snd (snd (load_knowledge emb kb (snd (load_knowledge emb kb st)))))) =
   length (embed_log (snd (snd (load_knowledge emb kb st))))"
proof -
  have "fst ` set (records kb) \<subseteq> dom (embedding_cache (fst (snd (load_knowledge emb kb st))))"
    by (simp add: load_knowledge_fields load_records_dom)
  then have "snd (snd (load_knowledge emb kb (snd (load_knowledge emb kb st)))) =
        snd (snd (load_knowledge emb kb st))"
    by (simp add: load_knowledge_world [of emb kb "snd (load_knowledge emb kb st)"] load_records_hit)
  then show ?thesis by simp
qed

theorem second_load_no_calls_witness:
  "embed_log (snd (snd (load_knowledge initial_emb nyc_knowledge
     (snd (load_knowledge initial_emb nyc_knowledge (Agent (str ''NYCAI'') 1000 1, quiet_world)))))) =
   [str ''Empire State Building'', str ''Central Park'', str ''The Metropolitan Museum of Art'']"
proof -
  have "embed_log (snd (snd (load_knowledge initial_emb nyc_knowledge (Agent (str ''NYCAI'') 1000 1, quiet_world)))) =
        [str ''Empire State Building'', str ''Central Park'', str ''The Metropolitan Museum of Art'']"
    by (simp add: load_knowledge_world records_def nyc_knowledge_def load_record_def
        cached_embedding_cases get_embedding_def Let_def Agent_def quiet_world_def str_def)
  with second_load_no_calls [of initial_emb nyc_knowledge "(Agent (str ''NYCAI'') 1000 1, quiet_world)"]
  show ?thesis by simp
qed

text \<open>
  Claim C8. After two calls of \<^verbatim>\<open>load_knowledge\<close> on a fresh agent with the same
  knowledge base of N records, where the embedding endpoint gives vectors of the dimension
  of the index, the index holds 3 N vectors, the embeddings of the titles three times
  over, and \<^verbatim>\<open>knowledge_data\<close> holds 2 N records: the second call adds the whole list
  \<^verbatim>\<open>knowledge_embeddings\<close>, the vectors of the first call included. Both calls
  return, unless the knowledge base has no record, where both raise \<^verbatim>\<open>ValueError\<close>.
  Index and data have the same length only when the knowledge base has no record.
\<close>

theorem second_load_misaligned:
  fixes emb kb nm cs d w
  defines "st1 \<equiv> snd (load_knowledge emb kb (Agent nm cs d, w))"
  defines "a2 \<equiv> fst (snd (load_knowledge emb kb st1))"
    and "E \<equiv> map (\<lambda>r. fst (get_embedding emb (fst r) w)) (records kb)"
  assumes "\<forall>t. length (emb t) = d"
  shows "idx_xb (index a2) = E @ E @ E \<and>
         knowledge_data a2 = map snd (records kb) @ map snd (records kb) \<and>
         length (idx_xb (index a2)) = 3 * length (records kb) \<and>
         length (knowledge_data a2) = 2 * length (records kb) \<and>
         (length (idx_xb (index a2)) = length (knowledge_data a2)) = (records kb = []) \<and>
         fst (load_knowledge emb kb (Agent nm cs d, w)) =
           (if records kb = [] then Inl ValueError else Inr ()) \<and>
         fst (load_knowledge emb kb st1) = (if records kb = [] then Inl ValueError else Inr ())"
proof -
  let ?init = "(Agent nm cs d, w)"
  have fresh: "\<forall>t. length (emb t) = idx_d (index (fst ?init))" "cache_agrees emb (fst ?init)"
    "\<forall>x\<in>set (knowledge_embeddings (fst ?init)). length x = idx_d (index (fst ?init))"
    using assms(4) by (simp_all add: Agent_agrees) (simp_all add: Agent_def IndexFlatL2_def)
  have r1: "fst (load_knowledge emb kb ?init) = (if records kb = [] then Inl ValueError else Inr ())"
    unfolding load_knowledge_uniform(1) [OF fresh] by (simp add: Agent_def)
  have xb1: "idx_xb (index (fst st1)) = E"
    unfolding st1_def E_def load_knowledge_uniform(2) [OF fresh, where ?w0.0 = w]
    by (simp add: Agent_def IndexFlatL2_def)
  have d1: "idx_d (index (fst st1)) = d"
    unfolding st1_def load_knowledge_uniform(3) [OF fresh]
    by (simp add: Agent_def IndexFlatL2_def)
  have ke1: "knowledge_embeddings (fst st1) = E"
    unfolding st1_def E_def using load_knowledge_embeddings [of emb ?init kb w]
    by (simp add: Agent_agrees) (simp add: Agent_def)
  have kd1: "knowledge_data (fst st1) = map snd (records kb)"
    unfolding st1_def by (simp add: load_knowledge_fields) (simp add: Agent_def)
  have ag1: "cache_agrees emb (fst st1)"
    unfolding st1_def by (rule load_knowledge_agrees) (simp add: Agent_agrees)
  have lenE: "\<forall>x\<in>set E. length x = d"
    using assms(4) by (simp add: E_def get_embedding_def Let_def)
  have loaded: "\<forall>t. length (emb t) = idx_d (index (fst st1))"
    "\<forall>x\<in>set (knowledge_embeddings (fst st1)). length x = idx_d (index (fst st1))"
    using assms(4) lenE by (simp_all add: d1 ke1)
  have r2: "fst (load_knowledge emb kb st1) = (if records kb = [] then Inl ValueError else Inr ())"
    unfolding load_knowledge_uniform(1) [OF loaded(1) ag1 loaded(2)] by (simp add: ke1 E_def)
  have xb2: "idx_xb (index a2) = E @ E @ E"
    unfolding a2_def load_knowledge_uniform(2) [OF loaded(1) ag1 loaded(2), where ?w0.0 = w]
    by (simp add: xb1 ke1 E_def)
  have kd2: "knowledge_data a2 = map snd (records kb) @ map snd (records kb)"
    unfolding a2_def by (simp add: load_knowledge_fields(1) [of emb kb st1] kd1)
  show ?thesis
    by (simp add: xb2 kd2 r1 r2) (simp add: E_def)
qed

theorem second_load_misaligned_witness:
  "length (idx_xb (index (fst (snd (load_knowledge initial_emb nyc_knowledge
     (snd (load_knowledge initial_emb nyc_knowledge (Agent (str ''NYCAI'') 1000 1, quiet_world)))))))) = 9 \<and>
   length (knowledge_data (fst (snd (load_knowledge initial_emb nyc_knowledge
     (snd (load_knowledge initial_emb nyc_knowledge (Agent (str ''NYCAI'') 1000 1, quiet_world))))))) = 6 \<and>
   fst (load_knowledge initial_emb nyc_knowledge
     (snd (load_knowledge initial_emb nyc_knowledge (Agent (str ''NYCAI'') 1000 1, quiet_world)))) = Inr ()"
proof -
  have len: "length (records nyc_knowledge) = 3"
    by (simp add: records_def nyc_knowledge_def)
  then have ne: "records nyc_knowledge \<noteq> []"
    by auto
  have dims: "\<forall>t. length (initial_emb t) = 1"
    by (simp add: initial_emb_def split: list.split)
  from second_load_misaligned [OF dims, of nyc_knowledge "str ''NYCAI''" 1000 quiet_world] len ne
  show ?thesis by simp
qed

lemma cache_grows_sbind:
  assumes "cache_grows m" and "\<And>x. cache_grows (f x)"
  shows "cache_grows (sbind m f)"
  unfolding cache_grows_def
proof
  fix st
  have m: "embedding_cache (fst st) \<subseteq>\<^sub>m embedding_cache (fst (snd (m st)))"
    using assms(1) unfolding cache_grows_def by blast
  show "embedding_cache (fst st) \<subseteq>\<^sub>m embedding_cache (fst (snd (sbind m f st)))"
  proof (cases "fst (m st)")
    case (Inl e)
    then show ?thesis using m by (simp add: sbind_def split_beta)
  next
    case (Inr x)
    have "embedding_cache (fst (snd (m st))) \<subseteq>\<^sub>m embedding_cache (fst (snd (f x (snd (m st)))))"
      using assms(2) [of x] unfolding cache_grows_def by blast
    with m have "embedding_cache (fst st) \<subseteq>\<^sub>m embedding_cache (fst (snd (f x (snd (m st)))))"
      by (rule map_le_trans)
    with Inr show ?thesis by (simp add: sbind_def split_beta)
  qed
qed

lemma cache_grows_print: "cache_grows (print s)"
  by (simp add: cache_grows_def print_def split_beta)

lemma cache_grows_input: "cache_grows (input s)"
  by (simp add: cache_grows_def input_def split_beta split: list.split)

lemma cache_grows_lift: "cache_grows (lift r)"
  by (simp add: cache_grows_def lift_def)

lemma cache_grows_chat: "cache_grows (chat_completion chat s u)"
  by (simp add: cache_grows_def chat_completion_def split_beta)

lemma cache_grows_retrieve: "cache_grows (retrieve_knowledge emb q)"
  by (auto simp: cache_grows_def retrieve_knowledge_def cached_embedding_cases map_le_def
      split: option.split)

lemma cache_grows_load: "cache_grows (load_knowledge emb kb)"
  by (simp add: cache_grows_def load_knowledge_fields load_records_cache_le)

lemma cache_grows_retrieve_interests: "cache_grows (retrieve_interests emb qs acc)"
  by (induction qs arbitrary: acc)
     (simp_all add: cache_grows_lift cache_grows_sbind cache_grows_retrieve)

lemma cache_grows_print_items: "cache_grows (print_items xs)"
  by (induction xs) (simp_all add: cache_grows_lift cache_grows_sbind cache_grows_print)

lemma cache_grows_print_sections: "cache_grows (print_sections it)"
  by (induction it rule: print_sections.induct)
     (simp_all add: cache_grows_lift cache_grows_sbind cache_grows_print cache_grows_print_items)

lemma cache_grows_present: "cache_grows (present_itinerary text budget dates)"
  by (simp add: present_itinerary_def cache_grows_lift cache_grows_sbind cache_grows_print
      cache_grows_print_sections)

lemma cache_grows_plan: "cache_grows (plan_nyc_trip emb chat repr dates budget prefs interests)"
  unfolding plan_nyc_trip_def
  by (intro cache_grows_sbind cache_grows_print cache_grows_input cache_grows_retrieve
      cache_grows_retrieve_interests cache_grows_lift cache_grows_chat cache_grows_present)

lemma load_knowledge_cache_le:
  "embedding_cache (fst st) \<subseteq>\<^sub>m embedding_cache (fst (snd (load_knowledge emb kb st)))"
  by (simp add: load_knowledge_fields load_records_cache_le)

lemma load_record_cache_size:
  "cache_size (fst (load_record emb r st)) = cache_size (fst st)"
  by (cases st; cases r) (simp add: load_record_def cached_embedding_cases split: option.split)

lemma load_knowledge_cache_size:
  "cache_size (fst (snd (load_knowledge emb kb st))) = cache_size (fst st)"
proof -
  have "cache_size (fst (fold (load_record emb) rs st)) = cache_size (fst st)" for rs
    by (induction rs arbitrary: st) (simp_all add: load_record_cache_size)
  then show ?thesis
    by (simp add: load_knowledge_records split_beta split: sum.split)
qed

lemma many_titles_card:
  "card (dom (embedding_cache (fst (snd (load_knowledge emb (many_titles n) (Agent nm cs d, w)))))) = n"
proof -
  have "inj_on (\<lambda>i. replicate i (97::nat)) {0..<n}"
    by (rule inj_onI) (metis length_replicate)
  then have "card ((\<lambda>i. replicate i (97::nat)) ` {0..<n}) = n"
    by (simp add: card_image)
  moreover have "fst ` set (records (many_titles n)) = (\<lambda>i. replicate i (97::nat)) ` {0..<n}"
    by (auto simp: many_titles_def records_def image_iff)
  ultimately show ?thesis
    by (simp add: load_knowledge_fields load_records_dom) (simp add: Agent_def)
qed

text \<open>
  Claim C6. The cache of embeddings only grows: \<^verbatim>\<open>load_knowledge\<close>,
  \<^verbatim>\<open>retrieve_knowledge\<close>, \<^verbatim>\<open>plan_nyc_trip\<close> and \<^verbatim>\<open>present_itinerary\<close> keep
  every entry the cache had, with its vector, whether they return or raise. The size
  given to the agent does not bound it: for every \<^verbatim>\<open>cache_size\<close> there is a knowledge
  base after whose loading the cache holds more entries than that, and
  \<^verbatim>\<open>cache_size\<close> is still what it was.
\<close>

theorem cache_never_shrinks:
  "embedding_cache (fst st) \<subseteq>\<^sub>m embedding_cache (fst (snd (load_knowledge emb kb st))) \<and>
   embedding_cache (fst st) \<subseteq>\<^sub>m embedding_cache (fst (snd (retrieve_knowledge emb query st))) \<and>
   embedding_cache (fst st) \<subseteq>\<^sub>m
     embedding_cache (fst (snd (plan_nyc_trip emb chat repr dates budget prefs interests st))) \<and>
   embedding_cache (fst st) \<subseteq>\<^sub>m embedding_cache (fst (snd (present_itinerary text budget dates st))) \<and>
   (\<exists>kb. cache_size (fst (snd (load_knowledge emb kb (Agent nm cs d, w)))) = cs \<and>
         cs < int (card (dom (embedding_cache (fst (snd (load_knowledge emb kb (Agent nm cs d, w))))))))"
proof -
  let ?kb = "many_titles (nat cs + 1)"
  have "cache_size (fst (snd (load_knowledge emb ?kb (Agent nm cs d, w)))) = cs"
    by (simp add: load_knowledge_cache_size) (simp add: Agent_def)
  moreover have "cs < int (card (dom (embedding_cache (fst (snd (load_knowledge emb ?kb (Agent nm cs d, w)))))))"
    by (simp add: many_titles_card)
  ultimately have grow: "\<exists>kb. cache_size (fst (snd (load_knowledge emb kb (Agent nm cs d, w)))) = cs \<and>
         cs < int (card (dom (embedding_cache (fst (snd (load_knowledge emb kb (Agent nm cs d, w)))))))"
    by blast
  have retrieve: "embedding_cache (fst st) \<subseteq>\<^sub>m embedding_cache (fst (snd (retrieve_knowledge emb query st)))"
    using cache_grows_retrieve [of emb query] unfolding cache_grows_def by blast
  have plan: "embedding_cache (fst st) \<subseteq>\<^sub>m
     embedding_cache (fst (snd (plan_nyc_trip emb chat repr dates budget prefs interests st)))"
    using cache_grows_plan [of emb chat repr dates budget prefs interests] unfolding cache_grows_def by blast
  have present: "embedding_cache (fst st) \<subseteq>\<^sub>m embedding_cache (fst (snd (present_itinerary text budget dates st)))"
    using cache_grows_present [of "text" budget dates] unfolding cache_grows_def by blast
  from load_knowledge_cache_le retrieve plan present grow show ?thesis
    by blast
qed

section \<open>Retrieval\<close>

lemma nearest_labels_length: "length (nearest_labels ix q k) = k"
  by (simp add: nearest_labels_def Let_def)

lemma nearest_labels_range:
  assumes "i \<in> set (nearest_labels ix q k)"
  shows "- 1 \<le> i \<and> i < int (length (idx_xb ix))"
proof -
  let ?ds = "map (fvec_L2sqr q) (idx_xb ix)"
  have "set (map snd (sort_key fst (zip ?ds [0..<length ?ds]))) \<subseteq> {0..<length (idx_xb ix)}"
    by (auto dest: set_zip_rightD)
  then have "set (take k (map snd (sort_key fst (zip ?ds [0..<length ?ds])))) \<subseteq> {0..<length (idx_xb ix)}"
    using set_take_subset by fast
  with assms show ?thesis
    by (auto simp: nearest_labels_def Let_def)
qed

lemma gather_total:
  assumes "data \<noteq> []" and "\<forall>i\<in>set labels. - 1 \<le> i \<and> i < int (length data)"
  shows "\<exists>rs. gather data labels acc = Inr (acc @ rs) \<and> length rs = length labels"
  using assms(2)
proof (induction labels arbitrary: acc)
  case Nil
  then show ?case by simp
next
  case (Cons i labels)
  from assms(1) obtain y ys where "data = y # ys"
    by (cases data) auto
  with Cons.prems have "\<exists>x. getitem data i = Inr x"
    by (auto simp: getitem_def)
  then obtain x where x: "getitem data i = Inr x" ..
  from Cons.prems have "\<forall>i\<in>set labels. - 1 \<le> i \<and> i < int (length data)"
    by simp
  from Cons.IH [OF this, of "acc @ [x]"] obtain rs
    where "gather data labels (acc @ [x]) = Inr ((acc @ [x]) @ rs)" and "length rs = length labels"
    by blast
  with x have "gather data (i # labels) acc = Inr (acc @ (x # rs)) \<and> length (x # rs) = length (i # labels)"
    by simp
  then show ?case by blast
qed

lemma retrieve_knowledge_result:
  "fst (retrieve_knowledge emb q st) =
     ebind (index_search (index (fst st))
              (case embedding_cache (fst st) q of
                 Some e \<Rightarrow> e
               | None \<Rightarrow> fst (get_embedding emb q (snd st))) 5)
       (\<lambda>labels. gather (knowledge_data (fst st)) labels [])"
  by (cases st) (simp add: retrieve_knowledge_def cached_embedding_cases split: option.split)

text \<open>
  After one load of a knowledge base that has a record, with vectors of the dimension of
  the index, every retrieval returns five records, however few were loaded.
\<close>

lemma retrieve_always_five:
  assumes "records kb \<noteq> []" and "\<forall>t. length (emb t) = d"
  shows "\<exists>rs. fst (retrieve_knowledge emb q (snd (load_knowledge emb kb (Agent nm cs d, w)))) = Inr rs \<and>
              length rs = 5"
proof -
  let ?init = "(Agent nm cs d, w)"
  let ?st = "snd (load_knowledge emb kb ?init)"
  let ?v = "case embedding_cache (fst ?st) q of Some e \<Rightarrow> e | None \<Rightarrow> fst (get_embedding emb q (snd ?st))"
  have fresh: "\<forall>t. length (emb t) = idx_d (index (fst ?init))" "cache_agrees emb (fst ?init)"
    "\<forall>x\<in>set (knowledge_embeddings (fst ?init)). length x = idx_d (index (fst ?init))"
    using assms(2) by (simp_all add: Agent_agrees) (simp_all add: Agent_def IndexFlatL2_def)
  have kd: "knowledge_data (fst ?st) = map snd (records kb)"
    by (simp add: load_knowledge_fields) (simp add: Agent_def)
  have xb: "length (idx_xb (index (fst ?st))) = length (records kb)"
    unfolding load_knowledge_uniform(2) [OF fresh, where ?w0.0 = w]
    by (simp add: Agent_def IndexFlatL2_def)
  have d: "idx_d (index (fst ?st)) = d"
    unfolding load_knowledge_uniform(3) [OF fresh] by (simp add: Agent_def IndexFlatL2_def)
  have "cache_agrees emb (fst ?st)"
    by (rule load_knowledge_agrees) (simp add: Agent_agrees)
  then have "length ?v = d"
    using assms(2) by (auto simp: cache_agrees_def get_embedding_def Let_def split: option.split)
  then have search: "index_search (index (fst ?st)) ?v 5 = Inr (nearest_labels (index (fst ?st)) ?v 5)"
    by (simp add: index_search_def d)
  have "\<forall>i\<in>set (nearest_labels (index (fst ?st)) ?v 5). - 1 \<le> i \<and> i < int (length (knowledge_data (fst ?st)))"
    using nearest_labels_range [of _ "index (fst ?st)" ?v 5] by (simp add: xb kd)
  moreover have "knowledge_data (fst ?st) \<noteq> []"
    using assms(1) by (simp add: kd)
  ultimately obtain rs where "gather (knowledge_data (fst ?st)) (nearest_labels (index (fst ?st)) ?v 5) [] = Inr ([] @ rs)"
    and "length rs = length (nearest_labels (index (fst ?st)) ?v 5)"
    using gather_total by blast
  then show ?thesis
    unfolding retrieve_knowledge_result search
    by (simp add: ebind_def nearest_labels_length)
qed

text \<open>
  Where the index holds at least \<open>k\<close> vectors the search gives \<open>k\<close> positions
  of the index, and the vectors there are listed by distance from the query, nearest first.
\<close>

lemma nearest_labels_sorted:
  assumes "k \<le> length (idx_xb ix)"
  shows "nearest_labels ix q k = map int (take k (map snd (sort_key fst
           (zip (map (fvec_L2sqr q) (idx_xb ix)) [0..<length (idx_xb ix)])))) \<and>
         sorted (map (\<lambda>i. fvec_L2sqr q (idx_xb ix ! nat i)) (nearest_labels ix q k))"
proof -
  let ?ds = "map (fvec_L2sqr q) (idx_xb ix)"
  let ?ps = "sort_key fst (zip ?ds [0..<length (idx_xb ix)])"
  have len: "length (take k (map snd ?ps)) = k"
    using assms by simp
  then have search: "nearest_labels ix q k = map int (take k (map snd ?ps))"
    by (simp add: nearest_labels_def Let_def)
  have "\<forall>p\<in>set ?ps. fvec_L2sqr q (idx_xb ix ! snd p) = fst p"
    by (auto simp: set_zip)
  then have "map (\<lambda>p. fvec_L2sqr q (idx_xb ix ! snd p)) ?ps = map fst ?ps"
    by simp
  then have "map (\<lambda>i. fvec_L2sqr q (idx_xb ix ! nat i)) (map int (map snd ?ps)) = map fst ?ps"
    by (simp add: comp_def)
  then have "map (\<lambda>i. fvec_L2sqr q (idx_xb ix ! nat i)) (map int (take k (map snd ?ps))) =
        take k (map fst ?ps)"
    by (simp only: take_map [symmetric])
  moreover have "sorted (take k (map fst ?ps))"
    by (intro sorted_wrt_take sorted_sort_key)
  ultimately show ?thesis
    by (simp only: search)
qed

text \<open>
  Claim C2 says that \<^verbatim>\<open>retrieve_knowledge\<close> returns at most min(5, N) records, in
  the order of their distance from the query, and exactly N records when fewer than five
  are loaded. The program loads the three records of \<^verbatim>\<open>nyc_knowledge\<close>. There the
  search gives the labels 2, 0, 1, -1, -1, the loop reads \<^verbatim>\<open>knowledge_data[-1]\<close> for
  each label -1, and the result has five records: the three loaded records, nearest
  first, and then the last loaded record twice more, which here is the nearest one, after
  the farthest.
\<close>

theorem retrieve_three_records:
  "fst (retrieve_knowledge initial_emb (str ''museums'')
          (snd (load_knowledge initial_emb nyc_knowledge (Agent (str ''NYCAI'') 1000 1, quiet_world)))) =
     Inr (map (\<lambda>i. snd (records nyc_knowledge ! i)) [2, 0, 1, 2, 2])"
proof -
  let ?init = "(Agent (str ''NYCAI'') 1000 1, quiet_world)"
  let ?st = "snd (load_knowledge initial_emb nyc_knowledge ?init)"
  have fresh: "\<forall>t. length (initial_emb t) = idx_d (index (fst ?init))" "cache_agrees initial_emb (fst ?init)"
    "\<forall>x\<in>set (knowledge_embeddings (fst ?init)). length x = idx_d (index (fst ?init))"
    by (simp_all add: Agent_agrees) (simp_all add: Agent_def IndexFlatL2_def initial_emb_def split: list.split)
  have kd: "knowledge_data (fst ?st) = map snd (records nyc_knowledge)"
    by (simp add: load_knowledge_fields) (simp add: Agent_def)
  have xb: "idx_xb (index (fst ?st)) = [[69], [67], [84]]"
    unfolding load_knowledge_uniform(2) [OF fresh, where ?w0.0 = quiet_world]
    by (simp add: Agent_def IndexFlatL2_def records_def nyc_knowledge_def get_embedding_def initial_emb_def str_def)
  have d: "idx_d (index (fst ?st)) = 1"
    unfolding load_knowledge_uniform(3) [OF fresh] by (simp add: Agent_def IndexFlatL2_def)
  have "str ''museums'' \<notin> fst ` set (records nyc_knowledge)"
    by (simp add: records_def nyc_knowledge_def str_def)
  moreover have "dom (embedding_cache (fst ?st)) = fst ` set (records nyc_knowledge)"
    by (simp add: load_knowledge_fields load_records_dom) (simp add: Agent_def)
  ultimately have miss: "embedding_cache (fst ?st) (str ''museums'') = None"
    by (metis domIff)
  have q: "fst (get_embedding initial_emb (str ''museums'') (snd ?st)) = [109]"
    by (simp add: get_embedding_def initial_emb_def str_def)
  have "nearest_labels (index (fst ?st)) [109] 5 = [2, 0, 1, - 1, - 1]"
    unfolding nearest_labels_def Let_def xb
    by (simp add: fvec_L2sqr_def upt_rec numeral_2_eq_2)
  then have labels: "index_search (index (fst ?st)) [109] 5 = Inr [2, 0, 1, - 1, - 1]"
    unfolding index_search_def d by simp
  have len: "length (records nyc_knowledge) = 3"
    by (simp add: records_def nyc_knowledge_def)
  show ?thesis
    unfolding retrieve_knowledge_result miss q option.case labels kd
    by (simp add: ebind_def getitem_def len)
qed

section \<open>The digest\<close>

lemma summarize_loop_headers:
  assumes "\<forall>item\<in>set knowledge_list. item \<noteq> []"
  shows "summarize_loop repr summary knowledge_list =
         Inr (summary @ concat (map (\<lambda>item. str ''**'' @ fst (hd item) @ str ''**'' @ [10] @
                                             item_details repr item) knowledge_list))"
  using assms
proof (induction knowledge_list arbitrary: summary)
  case Nil
  then show ?case by simp
next
  case (Cons item knowledge_list)
  from Cons.prems have "item \<noteq> []" by simp
  then have "getitem (map fst item) 0 = Inr (fst (hd item))"
    by (cases item) (simp_all add: getitem_def)
  moreover from Cons.prems have "\<forall>item\<in>set knowledge_list. item \<noteq> []" by simp
  ultimately show ?case
    by (simp add: Cons.IH)
qed

text \<open>
  Claim C9. For every list of retrieved records that is not empty, where each record has
  an attribute, the digest of \<^verbatim>\<open>summarize_knowledge\<close> is made of one block per
  record, and the header of the block is the first attribute key of the record body
  between two pairs of asterisks. The title is not in the record: \<^verbatim>\<open>knowledge_data\<close>
  holds the bodies only. So the header is the header of a title exactly when the first
  attribute key is that title.
\<close>

theorem digest_names_first_key:
  assumes "knowledge_list \<noteq> []" and "\<forall>item\<in>set knowledge_list. item \<noteq> []"
  shows "summarize_knowledge repr knowledge_list =
           Inr (concat (map (\<lambda>item. str ''**'' @ fst (hd item) @ str ''**'' @ [10] @
                                     item_details repr item) knowledge_list)) \<and>
         (\<forall>item\<in>set knowledge_list. \<forall>title.
            (str ''**'' @ fst (hd item) @ str ''**'' @ [10] = str ''**'' @ title @ str ''**'' @ [10]) =
            (fst (hd item) = title)) \<and>
         knowledge_data (fst (snd (load_knowledge emb kb (Agent nm cs d, w)))) = map snd (records kb)"
proof -
  have "summarize_knowledge repr knowledge_list = summarize_loop repr [] knowledge_list"
    using assms(1) by (simp add: summarize_knowledge_def)
  moreover have "knowledge_data (fst (snd (load_knowledge emb kb (Agent nm cs d, w)))) = map snd (records kb)"
    by (simp add: load_knowledge_fields) (simp add: Agent_def)
  ultimately show ?thesis
    using summarize_loop_headers [OF assms(2), of repr "[]"] by simp
qed

theorem digest_names_first_key_witness:
  "summarize_knowledge (\<lambda>xs. []) (map snd (records nyc_knowledge)) =
     Inr (concat (map (\<lambda>item. str ''**'' @ str ''description'' @ str ''**'' @ [10] @
                               item_details (\<lambda>xs. []) item)
                    (map snd (records nyc_knowledge)))) \<and>
   str ''**'' @ str ''description'' @ str ''**'' @ [10] \<noteq>
     str ''**'' @ str ''Central Park'' @ str ''**'' @ [10] \<and>
   knowledge_data (fst (snd (load_knowledge initial_emb nyc_knowledge (Agent (str ''NYCAI'') 1000 1, quiet_world)))) =
     map snd (records nyc_knowledge)"
proof -
  have ne: "map snd (records nyc_knowledge) \<noteq> []"
    by (simp add: records_def nyc_knowledge_def)
  have all: "\<forall>item\<in>set (map snd (records nyc_knowledge)). item \<noteq> []"
    by (simp add: records_def nyc_knowledge_def)
  have hd: "\<forall>item\<in>set (map snd (records nyc_knowledge)). fst (hd item) = str ''description''"
    by (simp add: records_def nyc_knowledge_def)
  have "str ''description'' \<noteq> str ''Central Park''"
    by (simp add: str_def)
  then show ?thesis
    using digest_names_first_key [OF ne all, of "\<lambda>xs. []" initial_emb nyc_knowledge "str ''NYCAI''" 1000 1 quiet_world] hd
    by (simp cong: map_cong)
qed

section \<open>The missing credential\<close>

lemma setup_environment_absent:
  assumes "env (str ''OPENAI_API_KEY'') = None"
  shows "setup_environment env import_error w =
         (Inl (SystemExit 1),
          w\<lparr>stdout := stdout w @ msg_setting_up @ [10] @ missing_key_diagnostic\<rparr>)"
  using assms
  by (simp add: setup_environment_def println_def write_out_def Let_def missing_key_diagnostic_def)

lemma choices_differ:
  "str ''1'' \<noteq> str ''2''" "str ''1'' \<noteq> str ''3''" "str ''1'' \<noteq> str ''4''"
  "str ''2'' \<noteq> str ''3''" "str ''2'' \<noteq> str ''4''" "str ''3'' \<noteq> str ''4''"
  by (simp_all add: str_def)

text \<open>
  With the key missing, the menu ends in \<^verbatim>\<open>SystemExit(1)\<close> as soon as mode 1 or mode 2
  is chosen: the diagnostic is the last thing printed, and nothing was sent to an endpoint.
\<close>

lemma main_menu_guarded:
  assumes "env (str ''OPENAI_API_KEY'') = None"
    and "first_choice lines = Some c" and "c = str ''1'' \<or> c = str ''2''"
  shows "\<exists>w'. main_menu env import_error rest lines w = (Inl (SystemExit 1), w') \<and>
              embed_log w' = embed_log w \<and> chat_log w' = chat_log w \<and>
              (\<exists>out. stdout w' = out @ missing_key_diagnostic)"
  using assms(2)
proof (induction lines arbitrary: w)
  case Nil
  then show ?case by simp
next
  case (Cons line lines)
  let ?w1 = "(write_out msg_enter_choice w)\<lparr>stdin := lines\<rparr>"
  have logs: "embed_log ?w1 = embed_log w" "chat_log ?w1 = chat_log w"
    by (simp_all add: write_out_def)
  consider (one) "strip line = str ''1''" | (two) "strip line = str ''2''"
    | (other) "strip line \<notin> {str ''1'', str ''2'', str ''3'', str ''4''}"
    using Cons.prems assms(3) choices_differ by (auto split: if_splits)
  then show ?case
  proof cases
    case one
    then show ?thesis
      using logs
      by (simp add: Let_def TravelPlannerDemo_def setup_environment_absent [of env, OF assms(1)])
  next
    case two
    with choices_differ show ?thesis
      using logs
      by (simp add: Let_def run_quick_demo_def TravelPlannerDemo_def except_Exception_def
          setup_environment_absent [of env, OF assms(1)] println_def write_out_def)
  next
    case other
    with Cons.prems have "first_choice lines = Some c"
      by simp
    from Cons.IH [OF this, of "println msg_invalid_choice ?w1"] other logs show ?thesis
      by (simp add: Let_def println_def write_out_def)
  qed
qed

text \<open>
  Claim C5. When the variable \<^verbatim>\<open>OPENAI_API_KEY\<close> is not set, the program ends early
  with status 1 and a diagnostic, before anything is sent to an endpoint. Where the
  constructor of the client library requires the key, this holds of every run of either
  script, whatever the rest of the script is: the run ends while the module is loaded,
  with the traceback of the constructor's exception, and the world is as it was. Whatever
  the constructor does, it holds of every run of the example script that chooses mode 1 or
  mode 2: where the constructor does not raise, \<^verbatim>\<open>setup_environment\<close> prints its
  diagnostic and raises \<^verbatim>\<open>SystemExit(1)\<close>, which no handler of the script catches.
  The main script and the modes 3 and 4 of the example script do not look at the variable
  themselves: of them, only the first part speaks.
\<close>

theorem missing_credential_exits:
  assumes "env (str ''OPENAI_API_KEY'') = None"
  shows "(requires_key ctor env \<longrightarrow> (\<exists>e. run_script ctor env body w = (1, Some e, w))) \<and>
         (\<forall>c. first_choice (stdin w) = Some c \<and> (c = str ''1'' \<or> c = str ''2'') \<longrightarrow>
            (\<exists>traceback w'.
               example_script ctor env import_error rest w = (1, traceback, w') \<and>
               embed_log w' = embed_log w \<and> chat_log w' = chat_log w \<and>
               (traceback \<noteq> None \<or> (\<exists>out. stdout w' = out @ missing_key_diagnostic))))"
proof (intro conjI impI allI)
  assume "requires_key ctor env"
  then obtain e where "ctor env None = Inl e"
    by (auto simp: requires_key_def)
  with assms have "run_script ctor env body w = (1, Some e, w)"
    by (simp add: run_script_def client_def)
  then show "\<exists>e. run_script ctor env body w = (1, Some e, w)" ..
next
  fix c
  assume choice: "first_choice (stdin w) = Some c \<and> (c = str ''1'' \<or> c = str ''2'')"
  show "\<exists>traceback w'.
          example_script ctor env import_error rest w = (1, traceback, w') \<and>
          embed_log w' = embed_log w \<and> chat_log w' = chat_log w \<and>
          (traceback \<noteq> None \<or> (\<exists>out. stdout w' = out @ missing_key_diagnostic))"
  proof (cases "ctor env None")
    case (Inl e)
    with assms have "example_script ctor env import_error rest w = (1, Some e, w)"
      by (simp add: example_script_def run_script_def client_def)
    then show ?thesis by simp
  next
    case (Inr cl)
    let ?w0 = "println msg_mode_4 (println msg_mode_3 (println msg_mode_2 (println msg_mode_1
                (println msg_choose_mode (println (replicate 50 (of_char CHR ''=''))
                (println msg_examples w))))))"
    have w0: "stdin ?w0 = stdin w" "embed_log ?w0 = embed_log w" "chat_log ?w0 = chat_log w"
      by (simp_all add: println_def write_out_def)
    from choice have c1: "first_choice (stdin w) = Some c" and c2: "c = str ''1'' \<or> c = str ''2''"
      by blast+
    have c0: "first_choice (stdin ?w0) = Some c"
      unfolding w0(1) by (rule c1)
    from main_menu_guarded [of env, OF assms c0 c2, of import_error rest ?w0]
    obtain w' where menu: "main_menu env import_error rest (stdin ?w0) ?w0 = (Inl (SystemExit 1), w')"
      and logs: "embed_log w' = embed_log ?w0" "chat_log w' = chat_log ?w0"
      and out: "\<exists>out. stdout w' = out @ missing_key_diagnostic"
      by blast
    from menu have "example_main env import_error rest w = (Inl (SystemExit 1), w')"
      by (simp add: example_main_def Let_def)
    with Inr assms have "example_script ctor env import_error rest w = (1, None, w')"
      by (simp add: example_script_def run_script_def client_def)
    with logs [unfolded w0(2) w0(3)] out show ?thesis
      by simp
  qed
qed

theorem missing_credential_exits_witness:
  "requires_key strict_ctor Map.empty \<and>
   run_script strict_ctor Map.empty (\<lambda>c w. (Inr (), w)) quiet_world = (1, Some OpenAIError, quiet_world) \<and>
   first_choice (stdin (quiet_world\<lparr>stdin := [str ''x'', str '' 2 '']\<rparr>)) = Some (str ''2'') \<and>
   (\<exists>traceback w'.
      example_script lenient_ctor Map.empty None idle_rest (quiet_world\<lparr>stdin := [str ''x'', str '' 2 '']\<rparr>) =
        (1, traceback, w') \<and>
      embed_log w' = [] \<and> chat_log w' = [] \<and>
      (traceback \<noteq> None \<or> (\<exists>out. stdout w' = out @ missing_key_diagnostic)))"
proof -
  have absent: "Map.empty (str ''OPENAI_API_KEY'') = None"
    by simp
  have strict: "requires_key strict_ctor Map.empty"
    by (simp add: requires_key_def strict_ctor_def)
  have choice: "first_choice (stdin (quiet_world\<lparr>stdin := [str ''x'', str '' 2 '']\<rparr>)) = Some (str ''2'')"
    by (simp add: strip_def str_def isspace_def)
  from missing_credential_exits [OF absent, of strict_ctor "\<lambda>c w. (Inr (), w)" quiet_world] strict
  obtain e where "run_script strict_ctor Map.empty (\<lambda>c w. (Inr (), w)) quiet_world = (1, Some e, quiet_world)"
    by blast
  moreover have "run_script strict_ctor Map.empty (\<lambda>c w. (Inr (), w)) quiet_world =
      (1, Some OpenAIError, quiet_world)"
    by (simp add: run_script_def client_def strict_ctor_def)
  moreover from missing_credential_exits [OF absent, of lenient_ctor "\<lambda>c w. (Inr (), w)"
      "quiet_world\<lparr>stdin := [str ''x'', str '' 2 '']\<rparr>" None idle_rest] choice
  have "\<exists>traceback w'.
      example_script lenient_ctor Map.empty None idle_rest (quiet_world\<lparr>stdin := [str ''x'', str '' 2 '']\<rparr>) =
        (1, traceback, w') \<and>
      embed_log w' = embed_log (quiet_world\<lparr>stdin := [str ''x'', str '' 2 '']\<rparr>) \<and>
      chat_log w' = chat_log (quiet_world\<lparr>stdin := [str ''x'', str '' 2 '']\<rparr>) \<and>
      (traceback \<noteq> None \<or> (\<exists>out. stdout w' = out @ missing_key_diagnostic))"
    by blast
  ultimately show ?thesis
    using strict choice by (simp add: quiet_world_def)
qed

section \<open>Parsing the itinerary\<close>

text \<open>
  No decimal digit is whitespace, and the colon is neither: the greedy reading of
  \<^verbatim>\<open>\s+\<close> and \<^verbatim>\<open>\d+\<close> in \<open>match_day\<close> loses no match.
\<close>

lemma space_values:
  "isspace c \<Longrightarrow>
   c \<le> 32 \<or> c = 133 \<or> c = 160 \<or> c = 5760 \<or> (8192 \<le> c \<and> c \<le> 8287) \<or> c = 12288"
  unfolding isspace_def by arith

lemma nd_zeros_values:
  "\<forall>z\<in>set nd_zeros.
     z = 48 \<or> (1632 \<le> z \<and> z \<le> 4240) \<or> (6112 \<le> z \<and> z \<le> 7248) \<or> 42528 \<le> z"
  by (simp add: nd_zeros_def)

lemma digit_not_space: "isdecimal c \<Longrightarrow> \<not> isspace c"
proof
  assume "isdecimal c" and "isspace c"
  then obtain z where "z \<in> set nd_zeros" and "z \<le> c" and "c \<le> z + 9"
    by (auto simp: isdecimal_def list_ex_iff)
  with nd_zeros_values
  have "z = 48 \<or> (1632 \<le> z \<and> z \<le> 4240) \<or> (6112 \<le> z \<and> z \<le> 7248) \<or> 42528 \<le> z"
    by blast
  with space_values [OF \<open>isspace c\<close>] \<open>z \<le> c\<close> \<open>c \<le> z + 9\<close> show False
    by arith
qed

lemma colon_plain: "\<not> isspace 58 \<and> \<not> isdecimal 58"
  by (simp add: isspace_def isdecimal_def nd_zeros_def)

lemma takeWhile_stop: "\<not> P h \<Longrightarrow> takeWhile P (q @ h # r) = takeWhile P q"
  by (induction q) simp_all

lemma dropWhile_stop: "\<not> P h \<Longrightarrow> dropWhile P (q @ h # r) = dropWhile P q @ h # r"
  by (induction q) simp_all

lemma takeWhile_inside:
  "dropWhile P xs \<noteq> [] \<Longrightarrow> takeWhile P (xs @ ys) = takeWhile P xs"
  by (induction xs) (auto split: if_splits)

lemma dropWhile_inside:
  "dropWhile P xs \<noteq> [] \<Longrightarrow> dropWhile P (xs @ ys) = dropWhile P xs @ ys"
  by (induction xs) (auto split: if_splits)

lemma label_initial_plain:
  "label_initial h \<Longrightarrow> \<not> isspace h \<and> \<not> isdecimal h \<and> h \<noteq> 58"
  by (auto simp: label_initial_def isspace_def isdecimal_def nd_zeros_def)

lemma straddle_prefix:
  assumes "\<not> prefix L s" and "s \<noteq> []" and "prefix L (s @ h # r)"
  shows "h \<in> set (tl L)"
proof -
  from assms(1,3) obtain us where L: "L = s @ us" and us: "prefix us (h # r)"
    by (auto simp: prefix_append)
  from L assms(1) have "us \<noteq> []" by auto
  with us obtain us' where "us = h # us'"
    by (cases us) auto
  with L assms(2) show ?thesis
    by (cases s) auto
qed

lemma match_day_Day:
  "match_day (str ''Day'' @ q) =
     (if takeWhile isspace q \<noteq> [] \<and> takeWhile isdecimal (dropWhile isspace q) \<noteq> [] \<and>
         prefix (str '':'') (dropWhile isdecimal (dropWhile isspace q))
      then Some (3 + length (takeWhile isspace q) +
                 length (takeWhile isdecimal (dropWhile isspace q)) + 1)
      else None)"
proof -
  have "drop 3 (str ''Day'' @ q) = q"
    by (simp add: str_def)
  then show ?thesis
    unfolding match_day_def by (simp only: prefixI [OF refl] if_True Let_def)
qed

lemma match_day_context:
  assumes "prefix (str ''Day'') s" and "\<not> isspace h" and "\<not> isdecimal h" and "h \<noteq> 58"
  shows "match_day (s @ h # r) = match_day s"
proof -
  from assms(1) obtain q where s: "s = str ''Day'' @ q"
    by (auto elim: prefixE)
  have colon: "prefix (str '':'') (t @ h # r) = prefix (str '':'') t" for t
    using assms(4) by (cases t) (simp_all add: str_def)
  have "match_day (str ''Day'' @ (q @ h # r)) = match_day (str ''Day'' @ q)"
    unfolding match_day_Day
    by (simp only: takeWhile_stop [of isspace h, OF assms(2)] dropWhile_stop [of isspace h, OF assms(2)]
        takeWhile_stop [of isdecimal h, OF assms(3)] dropWhile_stop [of isdecimal h, OF assms(3)] colon)
  then show ?thesis by (simp add: s)
qed

lemma match_label_straddle:
  assumes "s \<noteq> []" and "match_label s = None" and "label_initial h"
  shows "match_label (s @ h # r) = None"
proof -
  from assms(2) have nT: "\<not> prefix (str ''Transportation:'') s"
    and nA: "\<not> prefix (str ''Accommodation:'') s" and nD: "match_day s = None"
    by (auto simp: match_label_def split: if_splits)
  have "h \<notin> set (tl (str ''Transportation:''))" "h \<notin> set (tl (str ''Accommodation:''))"
    "h \<notin> set (tl (str ''Day''))"
    using assms(3) by (auto simp: label_initial_def str_def)
  with straddle_prefix [OF _ assms(1)] nT nA
  have T: "\<not> prefix (str ''Transportation:'') (s @ h # r)"
    and A: "\<not> prefix (str ''Accommodation:'') (s @ h # r)"
    and D: "\<not> prefix (str ''Day'') s \<Longrightarrow> \<not> prefix (str ''Day'') (s @ h # r)"
    by blast+
  have "match_day (s @ h # r) = None"
  proof (cases "prefix (str ''Day'') s")
    case True
    with label_initial_plain [OF assms(3)] nD show ?thesis
      by (simp add: match_day_context)
  next
    case False
    with D show ?thesis by (simp add: match_day_def)
  qed
  with T A show ?thesis by (simp add: match_label_def)
qed

lemma match_day_append:
  assumes "match_day s = Some n"
  shows "match_day (s @ r) = Some n"
proof -
  from assms have pre: "prefix (str ''Day'') s"
    by (auto simp: match_day_def split: if_splits)
  then obtain q where s: "s = str ''Day'' @ q"
    by (auto elim: prefixE)
  let ?r1 = "dropWhile isspace q"
  let ?r2 = "dropWhile isdecimal ?r1"
  from assms have sp: "takeWhile isspace q \<noteq> []" and dg: "takeWhile isdecimal ?r1 \<noteq> []"
    and c: "prefix (str '':'') ?r2"
    and n: "n = 3 + length (takeWhile isspace q) + length (takeWhile isdecimal ?r1) + 1"
    unfolding s match_day_Day by (simp_all split: if_splits)
  from dg have "?r1 \<noteq> []" by (metis takeWhile.simps(1))
  then have q: "takeWhile isspace (q @ r) = takeWhile isspace q"
    "dropWhile isspace (q @ r) = ?r1 @ r"
    by (rule takeWhile_inside, rule dropWhile_inside)
  from c have "?r2 \<noteq> []" by (metis prefix_bot.extremum_uniqueI list.distinct(1) list.simps(9) str_def)
  then have r1: "takeWhile isdecimal (?r1 @ r) = takeWhile isdecimal ?r1"
    "dropWhile isdecimal (?r1 @ r) = ?r2 @ r"
    by (rule takeWhile_inside, rule dropWhile_inside)
  from c have c': "prefix (str '':'') (?r2 @ r)"
    by (rule prefix_prefix)
  have "match_day (str ''Day'' @ (q @ r)) = Some n"
    unfolding match_day_Day q r1 using sp dg c' n by simp
  then show ?thesis by (simp add: s)
qed

lemma match_label_append:
  assumes "match_label s = Some n"
  shows "match_label (s @ r) = Some n"
proof (cases "prefix (str ''Transportation:'') s")
  case True
  with assms show ?thesis
    by (simp add: match_label_def prefix_prefix)
next
  case nT: False
  show ?thesis
  proof (cases "prefix (str ''Accommodation:'') s")
    case True
    then obtain q where "s = str ''Accommodation:'' @ q"
      by (auto elim: prefixE)
    then have "\<not> prefix (str ''Transportation:'') (s @ r)"
      by (simp add: str_def)
    with True assms nT show ?thesis
      by (simp add: match_label_def prefix_prefix)
  next
    case nA: False
    with nT assms have d: "match_day s = Some n"
      by (simp add: match_label_def)
    then have "prefix (str ''Day'') s"
      by (auto simp: match_day_def split: if_splits)
    then obtain q where "s = str ''Day'' @ q"
      by (auto elim: prefixE)
    then have "\<not> prefix (str ''Transportation:'') (s @ r)" "\<not> prefix (str ''Accommodation:'') (s @ r)"
      by (simp_all add: str_def)
    with match_day_append [OF d] show ?thesis
      by (simp add: match_label_def)
  qed
qed


lemma search_label_skip:
  assumes "label_free p" and "r = [] \<or> label_initial (hd r)"
  shows "search_label (p @ r) =
         map_option (\<lambda>(pre, lbl, rest). (p @ pre, lbl, rest)) (search_label r)"
  using assms(1)
proof (induction p)
  case Nil
  show ?case by (simp add: option.map_ident split_def)
next
  case (Cons c p)
  then have free: "match_label (c # p) = None" and p: "label_free p"
    by simp_all
  have "match_label ((c # p) @ r) = None"
  proof (cases r)
    case Nil
    with free show ?thesis by simp
  next
    case (Cons h r')
    with assms(2) have "label_initial h" by simp
    from match_label_straddle [OF _ free this] Cons show ?thesis by simp
  qed
  then show ?case
    by (simp add: Cons.IH [OF p] option.map_comp comp_def split_def)
qed

lemma search_label_at:
  assumes "match_label (l @ r) = Some (length l)" and "l \<noteq> []"
  shows "search_label (l @ r) = Some ([], l, r)"
  using assms by (cases l) simp_all

lemma re_split_label:
  assumes "label_free p" and "match_label (l @ r) = Some (length l)" and "label_initial (hd l)"
    and "l \<noteq> []"
  shows "re_split (p @ l @ r) = p # l # re_split r"
proof -
  from assms(3,4) have "l @ r = [] \<or> label_initial (hd (l @ r))"
    by simp
  from search_label_skip [OF assms(1) this] search_label_at [OF assms(2,4)]
  have "search_label (p @ l @ r) = Some (p, l, r)"
    by simp
  then show ?thesis
    by (subst re_split.simps) simp
qed

lemma re_split_free:
  assumes "label_free p"
  shows "re_split p = [p]"
proof -
  from search_label_skip [OF assms, of "[]"] have "search_label p = None"
    by simp
  then show ?thesis
    by (subst re_split.simps) simp
qed

lemma label_free_suffix: "label_free (xs @ ys) \<Longrightarrow> label_free ys"
  by (induction xs) simp_all

lemma strip_inside: "\<exists>xs ys. s = xs @ strip s @ ys"
proof -
  let ?q = "dropWhile isspace s"
  have "s = takeWhile isspace s @ ?q"
    by simp
  moreover have "rev ?q = takeWhile isspace (rev ?q) @ dropWhile isspace (rev ?q)"
    by simp
  then have "?q = strip s @ rev (takeWhile isspace (rev ?q))"
    by (metis rev_append rev_rev_ident strip_def)
  ultimately have "s = takeWhile isspace s @ strip s @ rev (takeWhile isspace (rev ?q))"
    by simp
  then show ?thesis by blast
qed

lemma label_free_strip:
  assumes "label_free p" and "strip p \<noteq> []"
  shows "match_label (strip p) = None"
proof (rule ccontr)
  assume "match_label (strip p) \<noteq> None"
  then obtain n where n: "match_label (strip p) = Some n" by auto
  obtain xs ys where p: "p = xs @ strip p @ ys"
    using strip_inside by blast
  with assms(1) have "label_free (strip p @ ys)"
    by (metis label_free_suffix)
  with assms(2) have "match_label (strip p @ ys) = None"
    by (cases "strip p") simp_all
  with match_label_append [OF n, of ys] show False by simp
qed

lemma match_label_None:
  assumes "match_label s = None"
  shows "s \<noteq> str ''Transportation:'' \<and> s \<noteq> str ''Accommodation:'' \<and> match_day s = None"
  using assms by (auto simp: match_label_def split: if_splits)

lemma parse_step_piece:
  assumes "label_free p"
  shows "parse_step p (itinerary, None) = (itinerary, None)"
    and "cur \<noteq> [] \<Longrightarrow> parse_step p (itinerary, Some cur) =
           (if strip p = [] then itinerary
            else AList.map_entry cur (\<lambda>items. items @ [strip p]) itinerary, Some cur)"
  using match_label_None [OF label_free_strip [OF assms]]
  by (auto simp: parse_step_def Let_def)

lemma strip_label:
  assumes "l \<noteq> []" and "\<not> isspace (hd l)" and "\<not> isspace (last l)"
  shows "strip l = l"
proof -
  from assms(1,2) have "dropWhile isspace l = l"
    by (cases l) simp_all
  moreover from assms(1,3) have "dropWhile isspace (rev l) = rev l"
    by (cases "rev l") (simp_all add: last_rev [symmetric] del: last_rev)
  ultimately show ?thesis by (simp add: strip_def)
qed


lemma labels_match:
  "match_label (str ''Transportation:'' @ r) = Some (length (str ''Transportation:''))"
  "match_label (str ''Accommodation:'' @ r) = Some (length (str ''Accommodation:''))"
  "match_label (str ''Day 1:'' @ r) = Some (length (str ''Day 1:''))"
  "match_label (str ''Day 2:'' @ r) = Some (length (str ''Day 2:''))"
proof -
  show "match_label (str ''Transportation:'' @ r) = Some (length (str ''Transportation:''))"
    by (simp add: match_label_def)
  have "\<not> prefix (str ''Transportation:'') (str ''Accommodation:'' @ r)"
    by (simp add: str_def)
  then show "match_label (str ''Accommodation:'' @ r) = Some (length (str ''Accommodation:''))"
    by (simp add: match_label_def)
  have day: "str ''Day 1:'' @ r = str ''Day'' @ (str '' 1:'' @ r)"
    "str ''Day 2:'' @ r = str ''Day'' @ (str '' 2:'' @ r)"
    by (simp_all add: str_def)
  have no: "\<not> prefix (str ''Transportation:'') (str ''Day'' @ q)"
    "\<not> prefix (str ''Accommodation:'') (str ''Day'' @ q)" for q
    by (simp_all add: str_def)
  have "match_day (str ''Day'' @ (str '' 1:'' @ r)) = Some 6"
    "match_day (str ''Day'' @ (str '' 2:'' @ r)) = Some 6"
    unfolding match_day_Day
    by (simp_all add: str_def isspace_def isdecimal_def nd_zeros_def)
  with no show "match_label (str ''Day 1:'' @ r) = Some (length (str ''Day 1:''))"
    "match_label (str ''Day 2:'' @ r) = Some (length (str ''Day 2:''))"
    unfolding day by (simp_all add: match_label_def) (simp_all add: str_def)
qed

lemma parse_step_label:
  assumes "l = str ''Transportation:'' \<or> l = str ''Accommodation:'' \<or> l = str ''Day 1:'' \<or>
           l = str ''Day 2:''"
  shows "parse_step l (itinerary, cur) = (AList.update l [] itinerary, Some l)"
proof -
  from assms have "l \<noteq> []" "\<not> isspace (hd l)" "\<not> isspace (last l)"
    by (auto simp: str_def isspace_def)
  then have strip: "strip l = l"
    by (rule strip_label)
  have day: "match_day (str ''Day 1:'') \<noteq> None" "match_day (str ''Day 2:'') \<noteq> None"
  proof -
    have "\<not> prefix (str ''Transportation:'') (str ''Day 1:'')"
      "\<not> prefix (str ''Accommodation:'') (str ''Day 1:'')"
      "\<not> prefix (str ''Transportation:'') (str ''Day 2:'')"
      "\<not> prefix (str ''Accommodation:'') (str ''Day 2:'')"
      by (simp_all add: str_def)
    with labels_match(3,4) [of "[]"]
    show "match_day (str ''Day 1:'') \<noteq> None" "match_day (str ''Day 2:'') \<noteq> None"
      by (simp_all add: match_label_def)
  qed
  with assms have "l = str ''Transportation:'' \<or> l = str ''Accommodation:'' \<or> match_day l \<noteq> None"
    by blast
  with \<open>l \<noteq> []\<close> show ?thesis
    by (auto simp: parse_step_def strip)
qed

text \<open>
  Claim C4. For every itinerary text that contains the labels "Transportation:",
  "Accommodation:", "Day 1:" and "Day 2:" in that order, with no label in the text before,
  between and after them, the parse of \<^verbatim>\<open>present_itinerary\<close> is the mapping with
  exactly these four keys, in this order. Each key maps to the text between its label and
  the next label, or the end of the text: all of it, in one fragment, without the
  whitespace around it. The text before the first label is under no key.
\<close>

theorem parse_four_labels:
  assumes "label_free p0" and "label_free p1" and "label_free p2" and "label_free p3"
    and "label_free p4"
  shows "parse_sections
           (p0 @ str ''Transportation:'' @ p1 @ str ''Accommodation:'' @ p2 @
            str ''Day 1:'' @ p3 @ str ''Day 2:'' @ p4) =
         [(str ''Transportation:'', fragment p1), (str ''Accommodation:'', fragment p2),
          (str ''Day 1:'', fragment p3), (str ''Day 2:'', fragment p4)]"
proof -
  let ?T = "str ''Transportation:''" and ?A = "str ''Accommodation:''"
  let ?D1 = "str ''Day 1:''" and ?D2 = "str ''Day 2:''"
  have initial: "label_initial (hd ?T)" "label_initial (hd ?A)" "label_initial (hd ?D1)"
    "label_initial (hd ?D2)"
    by (simp_all add: label_initial_def str_def)
  have ne: "?T \<noteq> []" "?A \<noteq> []" "?D1 \<noteq> []" "?D2 \<noteq> []"
    by (simp_all add: str_def)
  have distinct: "?T \<noteq> ?A" "?T \<noteq> ?D1" "?T \<noteq> ?D2" "?A \<noteq> ?D1" "?A \<noteq> ?D2" "?D1 \<noteq> ?D2"
    by (simp_all add: str_def)
  have split: "re_split (p0 @ ?T @ p1 @ ?A @ p2 @ ?D1 @ p3 @ ?D2 @ p4) =
        [p0, ?T, p1, ?A, p2, ?D1, p3, ?D2, p4]"
    by (simp only: re_split_label [OF assms(1) labels_match(1) initial(1) ne(1)]
        re_split_label [OF assms(2) labels_match(2) initial(2) ne(2)]
        re_split_label [OF assms(3) labels_match(3) initial(3) ne(3)]
        re_split_label [OF assms(4) labels_match(4) initial(4) ne(4)]
        re_split_free [OF assms(5)])
  have s0: "parse_step p0 ([], None) = ([], None)"
    by (rule parse_step_piece(1) [OF assms(1)])
  have s1: "parse_step ?T ([], None) = ([(?T, [])], Some ?T)"
    by (simp add: parse_step_label)
  have s2: "parse_step p1 ([(?T, [])], Some ?T) = ([(?T, fragment p1)], Some ?T)"
    by (simp add: parse_step_piece(2) [OF assms(2) ne(1)] fragment_def)
  have s3: "parse_step ?A ([(?T, fragment p1)], Some ?T) =
        ([(?T, fragment p1), (?A, [])], Some ?A)"
    using distinct by (simp add: parse_step_label)
  have s4: "parse_step p2 ([(?T, fragment p1), (?A, [])], Some ?A) =
        ([(?T, fragment p1), (?A, fragment p2)], Some ?A)"
    using distinct by (simp add: parse_step_piece(2) [OF assms(3) ne(2)] fragment_def)
  have s5: "parse_step ?D1 ([(?T, fragment p1), (?A, fragment p2)], Some ?A) =
        ([(?T, fragment p1), (?A, fragment p2), (?D1, [])], Some ?D1)"
    using distinct by (simp add: parse_step_label)
  have s6: "parse_step p3 ([(?T, fragment p1), (?A, fragment p2), (?D1, [])], Some ?D1) =
        ([(?T, fragment p1), (?A, fragment p2), (?D1, fragment p3)], Some ?D1)"
    using distinct by (simp add: parse_step_piece(2) [OF assms(4) ne(3)] fragment_def)
  have s7: "parse_step ?D2 ([(?T, fragment p1), (?A, fragment p2), (?D1, fragment p3)], Some ?D1) =
        ([(?T, fragment p1), (?A, fragment p2), (?D1, fragment p3), (?D2, [])], Some ?D2)"
    using distinct by (simp add: parse_step_label)
  have s8: "parse_step p4 ([(?T, fragment p1), (?A, fragment p2), (?D1, fragment p3), (?D2, [])], Some ?D2) =
        ([(?T, fragment p1), (?A, fragment p2), (?D1, fragment p3), (?D2, fragment p4)], Some ?D2)"
    using distinct by (simp add: parse_step_piece(2) [OF assms(5) ne(4)] fragment_def)
  show ?thesis
    unfolding parse_sections_def split
    by (simp only: fold_simps s0 s1 s2 s3 s4 s5 s6 s7 s8 fst_conv)
qed

theorem parse_four_labels_witness:
  "parse_sections
     (str ''Plan: '' @ str ''Transportation:'' @ str '' train '' @ str ''Accommodation:'' @
      str '' hotel '' @ str ''Day 1:'' @ str '' Dinner '' @ str ''Day 2:'' @ str '' '') =
   [(str ''Transportation:'', [str ''train'']), (str ''Accommodation:'', [str ''hotel'']),
    (str ''Day 1:'', [str ''Dinner'']), (str ''Day 2:'', [])]"
proof -
  have free: "label_free (str ''Plan: '')" "label_free (str '' train '')"
    "label_free (str '' hotel '')" "label_free (str '' Dinner '')" "label_free (str '' '')"
    by (simp_all add: str_def match_label_def match_day_def)
  have "fragment (str '' train '') = [str ''train'']" "fragment (str '' hotel '') = [str ''hotel'']"
    "fragment (str '' Dinner '') = [str ''Dinner'']" "fragment (str '' '') = []"
    by (simp_all add: fragment_def strip_def str_def isspace_def)
  with parse_four_labels [OF free] show ?thesis
    by simp
qed


end
